theory Spec2Isabelle
  imports Complex_Main
begin

section \<open>The cloud SDK as seen by the command-line client\<close>

text \<open>
  The client (\<^verbatim>\<open>src/unnamed/part_000\<close>, first program) talks to the provider through the
  Go SDK. The SDK's model types carry their attributes as pointers; a pointer is modelled
  as an \<open>option\<close>, \<open>None\<close> being \<^verbatim>\<open>nil\<close>, so that every dereference of the source is a
  branch of the model. Go strings are byte sequences, which is what \<open>string\<close> is.
\<close>

datatype error =
    NotFoundError
  | InvalidInputError
  | RemoteCallError string
  | ConfigError string
  | NilPointerDereference

record Compartment =
  Compartment_Id :: "string option"
  Compartment_Name :: "string option"
  Compartment_Description :: "string option"

record ListCompartmentsRequest =
  LCReq_CompartmentId :: "string option"
  LCReq_Page :: "string option"

record ListCompartmentsResponse =
  LCResp_Items :: "Compartment list"
  LCResp_OpcNextPage :: "string option"

record Image =
  Image_Id :: "string option"

record ListImagesRequest =
  LIReq_CompartmentId :: "string option"
  LIReq_DisplayName :: "string option"

record ListImagesResponse =
  LIResp_Items :: "Image list"

record Shape =
  Shape_Shape :: "string option"

record ListShapesRequest =
  LSReq_CompartmentId :: "string option"
  LSReq_ImageId :: "string option"

record ListShapesResponse =
  LSResp_Items :: "Shape list"

record LaunchInstanceRequest =
  Launch_AvailabilityDomain :: string
  Launch_CompartmentId :: string
  Launch_DisplayName :: string
  Launch_Shape :: string
  Launch_SubnetId :: string
  Launch_ImageId :: string
  Launch_Metadata :: "(string \<times> string) list"
  Launch_ShapeConfig :: "(real \<times> real) option"

record LaunchInstanceResponse =
  Instance_Id :: "string option"
  Instance_LifecycleState :: string

text \<open>
  What the program observes of the outside world: the configuration provider chosen from
  \<^verbatim>\<open>--profile\<close> (the tenancy identifier it reads from the local configuration, and whether
  a client can be built from it), and the remote operations. A remote operation answers a
  request with the SDK's error (its message) or with a response; the same request always
  gets the same answer, as with a mocked API.
\<close>

record cloud =
  TenancyOCID :: "string + string"
  NewIdentityClient :: "string + unit"
  NewComputeClient :: "string + unit"
  ListCompartments :: "ListCompartmentsRequest \<Rightarrow> string + ListCompartmentsResponse"
  ListImages :: "ListImagesRequest \<Rightarrow> string + ListImagesResponse"
  ListShapes :: "ListShapesRequest \<Rightarrow> string + ListShapesResponse"
  LaunchInstance :: "LaunchInstanceRequest \<Rightarrow> string + LaunchInstanceResponse"

text \<open>
  Effects are recorded as a trace: every request sent over the network, and every
  compartment line the tree walker prints (depth, identifier, name, description). The
  other console messages of the program are not recorded.
\<close>

datatype event =
    ListCompartmentsCall ListCompartmentsRequest
  | ListImagesCall ListImagesRequest
  | ListShapesCall ListShapesRequest
  | LaunchInstanceCall LaunchInstanceRequest
  | PrintCompartment nat string string string

type_synonym 'a outcome = "(error + 'a) \<times> event list"

section \<open>String helpers of the Go standard library\<close>

text \<open>\<^verbatim>\<open>strings.HasPrefix(s, prefix)\<close>: \<^verbatim>\<open>len(s) >= len(prefix) && s[:len(prefix)] == prefix\<close>.\<close>

definition HasPrefix :: "string \<Rightarrow> string \<Rightarrow> bool" where
  "HasPrefix s pre = (length pre \<le> length s \<and> take (length pre) s = pre)"

text \<open>
  \<^verbatim>\<open>strings.Split(s, sep)\<close> for a separator of one byte: the pieces between the
  separators, in order; one piece more than there are separators, so the empty string gives
  one empty piece. The first argument accumulates the current piece in reverse.
\<close>

fun split_from :: "string \<Rightarrow> char \<Rightarrow> string \<Rightarrow> string list" where
  "split_from acc sep [] = [rev acc]"
| "split_from acc sep (c # cs) =
     (if c = sep then rev acc # split_from [] sep cs else split_from (c # acc) sep cs)"

definition Split :: "string \<Rightarrow> char \<Rightarrow> string list" where
  "Split s sep = split_from [] sep s"

text \<open>
  \<^verbatim>\<open>strings.TrimSpace\<close>: the leading and the trailing white-space runes are removed,
  white space being \<^verbatim>\<open>unicode.IsSpace\<close>. In the bytes of the string (UTF-8) these runes
  are the six ASCII bytes tab, line feed, vertical tab, form feed, carriage return and
  space, the two-byte sequences of U+0085 and U+00A0, and the three-byte sequences of
  U+1680, U+2000 to U+200A, U+2028, U+2029, U+202F, U+205F and U+3000. A byte that does
  not begin (from the left) or end (from the right) such a sequence decodes to another
  rune or to the error rune, which is not white space, and stops the trimming.
\<close>

definition asciiSpace :: "char \<Rightarrow> bool" where
  "asciiSpace c = (c \<in> {CHR 0x09, CHR 0x0A, CHR 0x0B, CHR 0x0C, CHR 0x0D, CHR 0x20})"

definition space2 :: "char \<Rightarrow> char \<Rightarrow> bool" where
  "space2 c1 c2 = (c1 = CHR 0xC2 \<and> c2 \<in> {CHR 0x85, CHR 0xA0})"

definition space3 :: "char \<Rightarrow> char \<Rightarrow> char \<Rightarrow> bool" where
  "space3 c1 c2 c3 =
     (c1 = CHR 0xE1 \<and> c2 = CHR 0x9A \<and> c3 = CHR 0x80
      \<or> c1 = CHR 0xE2 \<and> c2 = CHR 0x80
          \<and> c3 \<in> {CHR 0x80, CHR 0x81, CHR 0x82, CHR 0x83, CHR 0x84, CHR 0x85, CHR 0x86,
                  CHR 0x87, CHR 0x88, CHR 0x89, CHR 0x8A, CHR 0xA8, CHR 0xA9, CHR 0xAF}
      \<or> c1 = CHR 0xE2 \<and> c2 = CHR 0x81 \<and> c3 = CHR 0x9F
      \<or> c1 = CHR 0xE3 \<and> c2 = CHR 0x80 \<and> c3 = CHR 0x80)"

text \<open>\<^verbatim>\<open>TrimLeftFunc(s, unicode.IsSpace)\<close>: runes are decoded from the first byte on.\<close>

fun TrimLeftSpace :: "string \<Rightarrow> string" where
  "TrimLeftSpace [] = []"
| "TrimLeftSpace [c1] = (if asciiSpace c1 then [] else [c1])"
| "TrimLeftSpace [c1, c2] =
     (if asciiSpace c1 then TrimLeftSpace [c2]
      else if space2 c1 c2 then []
      else [c1, c2])"
| "TrimLeftSpace (c1 # c2 # c3 # cs) =
     (if asciiSpace c1 then TrimLeftSpace (c2 # c3 # cs)
      else if space2 c1 c2 then TrimLeftSpace (c3 # cs)
      else if space3 c1 c2 c3 then TrimLeftSpace cs
      else c1 # c2 # c3 # cs)"

text \<open>
  \<^verbatim>\<open>TrimRightFunc(s, unicode.IsSpace)\<close> on the reversed string: the argument lists the
  bytes from the last one backwards, so \<open>c3\<close> is the last byte of the string.
\<close>

fun TrimRightSpace_rev :: "string \<Rightarrow> string" where
  "TrimRightSpace_rev [] = []"
| "TrimRightSpace_rev [c3] = (if asciiSpace c3 then [] else [c3])"
| "TrimRightSpace_rev [c3, c2] =
     (if asciiSpace c3 then TrimRightSpace_rev [c2]
      else if space2 c2 c3 then []
      else [c3, c2])"
| "TrimRightSpace_rev (c3 # c2 # c1 # cs) =
     (if asciiSpace c3 then TrimRightSpace_rev (c2 # c1 # cs)
      else if space2 c2 c3 then TrimRightSpace_rev (c1 # cs)
      else if space3 c1 c2 c3 then TrimRightSpace_rev cs
      else c3 # c2 # c1 # cs)"

definition TrimSpace :: "string \<Rightarrow> string" where
  "TrimSpace s = rev (TrimRightSpace_rev (rev (TrimLeftSpace s)))"

section \<open>Identifier resolution\<close>

text \<open>Dereferencing a pointer: \<^verbatim>\<open>nil\<close> panics.\<close>

definition deref :: "'a option \<Rightarrow> error + 'a" where
  "deref p = (case p of None \<Rightarrow> Inl NilPointerDereference | Some v \<Rightarrow> Inr v)"

text \<open>
  The loop of \<^verbatim>\<open>resolveCompartmentID\<close> over \<^verbatim>\<open>response.Items\<close>: the first compartment
  whose name equals the input ends the search with its identifier.
\<close>

fun match_compartment :: "Compartment list \<Rightarrow> string \<Rightarrow> error + string" where
  "match_compartment [] input = Inl NotFoundError"
| "match_compartment (compartment # rest) input =
     (case Compartment_Name compartment of
        None \<Rightarrow> Inl NilPointerDereference
      | Some name \<Rightarrow>
          if name = input then deref (Compartment_Id compartment)
          else match_compartment rest input)"

definition resolveCompartmentID :: "cloud \<Rightarrow> string \<Rightarrow> string outcome" where
  "resolveCompartmentID configProvider input =
     (if HasPrefix input ''ocid1.compartment.oc1.'' \<or> HasPrefix input ''ocid1.tenancy.oc1.''
      then (Inr input, [])
      else
        case TenancyOCID configProvider of
          Inl err \<Rightarrow> (Inl (ConfigError (''failed to get tenancy OCID: '' @ err)), [])
        | Inr tenancyOCID \<Rightarrow>
            (case NewIdentityClient configProvider of
               Inl err \<Rightarrow> (Inl (ConfigError (''failed to create identity client: '' @ err)), [])
             | Inr _ \<Rightarrow>
                 (let request = \<lparr>LCReq_CompartmentId = Some tenancyOCID, LCReq_Page = None\<rparr>
                  in case ListCompartments configProvider request of
                       Inl err \<Rightarrow> (Inl (RemoteCallError err), [ListCompartmentsCall request])
                     | Inr response \<Rightarrow>
                         (match_compartment (LCResp_Items response) input,
                          [ListCompartmentsCall request]))))"

definition resolveImageNameToID :: "cloud \<Rightarrow> string \<Rightarrow> string \<Rightarrow> string \<Rightarrow> string outcome" where
  "resolveImageNameToID client imageName compartmentID tenancyOCID =
     (let request = \<lparr>LIReq_CompartmentId = Some compartmentID, LIReq_DisplayName = Some imageName\<rparr>
      in case ListImages client request of
           Inl err \<Rightarrow>
             (Inl (RemoteCallError (''failed to list images: '' @ err)), [ListImagesCall request])
         | Inr response \<Rightarrow>
             if length (LIResp_Items response) = 0 then
               (let request' = request\<lparr>LIReq_CompartmentId := Some tenancyOCID\<rparr>
                in case ListImages client request' of
                     Inl errOracle \<Rightarrow>
                       (Inl (RemoteCallError (''failed to list platform images (using tenancy ''
                               @ tenancyOCID @ ''): '' @ errOracle)),
                        [ListImagesCall request, ListImagesCall request'])
                   | Inr responseOracle \<Rightarrow>
                       if length (LIResp_Items responseOracle) = 0
                       then (Inl NotFoundError, [ListImagesCall request, ListImagesCall request'])
                       else (deref (Image_Id (LIResp_Items responseOracle ! 0)),
                             [ListImagesCall request, ListImagesCall request']))
             else (deref (Image_Id (LIResp_Items response ! 0)), [ListImagesCall request]))"

text \<open>The loop of \<^verbatim>\<open>resolveShapeNameToID\<close>; a shape without a name is skipped.\<close>

fun match_shape :: "Shape list \<Rightarrow> string \<Rightarrow> error + string" where
  "match_shape [] shapeName = Inl NotFoundError"
| "match_shape (shape # rest) shapeName =
     (if Shape_Shape shape \<noteq> None \<and> Shape_Shape shape = Some shapeName then Inr shapeName
      else match_shape rest shapeName)"

definition resolveShapeNameToID :: "cloud \<Rightarrow> string \<Rightarrow> string \<Rightarrow> string \<Rightarrow> string outcome" where
  "resolveShapeNameToID client shapeName compartmentID imageID =
     (let request = \<lparr>LSReq_CompartmentId = Some compartmentID, LSReq_ImageId = Some imageID\<rparr>
      in case ListShapes client request of
           Inl err \<Rightarrow>
             (Inl (RemoteCallError (''failed to list shapes: '' @ err)), [ListShapesCall request])
         | Inr response \<Rightarrow>
             (match_shape (LSResp_Items response) shapeName, [ListShapesCall request]))"

section \<open>The compartment tree walker\<close>

text \<open>
  \<^verbatim>\<open>listCompartmentsRecursive\<close> calls itself for every compartment of a page and once
  more for the next page, so it need not return (a listing that names itself, or pages
  without end). The first argument bounds the depth of the call stack: with no frame left
  the result is \<open>None\<close>, together with the trace up to that point. \<open>then_walk\<close> is the
  sequencing of the source: what follows runs only after a \<^verbatim>\<open>nil\<close> error.
\<close>

type_synonym walk_result = "(error + unit) option \<times> event list"

definition then_walk :: "walk_result \<Rightarrow> walk_result \<Rightarrow> walk_result" where
  "then_walk first rest =
     (case first of
        (Some (Inr _), tr) \<Rightarrow> (case rest of (r, tr') \<Rightarrow> (r, tr @ tr'))
      | (r, tr) \<Rightarrow> (r, tr))"

function listCompartmentsRecursive ::
    "nat \<Rightarrow> cloud \<Rightarrow> ListCompartmentsRequest \<Rightarrow> nat \<Rightarrow> walk_result"
  and walk_items :: "nat \<Rightarrow> cloud \<Rightarrow> Compartment list \<Rightarrow> nat \<Rightarrow> walk_result"
where
  "listCompartmentsRecursive 0 client request depth = (None, [])"
| "listCompartmentsRecursive (Suc fuel) client request depth =
     (case ListCompartments client request of
        Inl err \<Rightarrow> (Some (Inl (RemoteCallError err)), [ListCompartmentsCall request])
      | Inr response \<Rightarrow>
          then_walk (Some (Inr ()), [ListCompartmentsCall request])
            (then_walk (walk_items fuel client (LCResp_Items response) depth)
               (case LCResp_OpcNextPage response of
                  None \<Rightarrow> (Some (Inr ()), [])
                | Some page \<Rightarrow>
                    listCompartmentsRecursive fuel client
                      (request\<lparr>LCReq_Page := Some page\<rparr>) depth)))"
| "walk_items fuel client [] depth = (Some (Inr ()), [])"
| "walk_items fuel client (compartment # rest) depth =
     (case deref (Compartment_Id compartment) of
        Inl e \<Rightarrow> (Some (Inl e), [])
      | Inr ident \<Rightarrow>
     (case deref (Compartment_Name compartment) of
        Inl e \<Rightarrow> (Some (Inl e), [])
      | Inr name \<Rightarrow>
     (case deref (Compartment_Description compartment) of
        Inl e \<Rightarrow> (Some (Inl e), [])
      | Inr description \<Rightarrow>
          then_walk (Some (Inr ()), [PrintCompartment depth ident name description])
            (then_walk
               (if Compartment_Id compartment \<noteq> None
                then listCompartmentsRecursive fuel client
                       \<lparr>LCReq_CompartmentId = Compartment_Id compartment, LCReq_Page = None\<rparr>
                       (depth + 1)
                else (Some (Inr ()), []))
               (walk_items fuel client rest depth)))))"
  by pat_completeness auto
termination
  by (relation "measures
        [\<lambda>x. case x of Inl (fuel, _) \<Rightarrow> 2 * fuel | Inr (fuel, _) \<Rightarrow> 2 * fuel + 1,
         \<lambda>x. case x of Inl _ \<Rightarrow> 0 | Inr (_, _, items, _) \<Rightarrow> length items]") auto

text \<open>The compartments visited, in the order of their lines.\<close>

fun visits :: "event list \<Rightarrow> (nat \<times> string \<times> string \<times> string) list" where
  "visits [] = []"
| "visits (PrintCompartment depth ident name description # tr) =
     (depth, ident, name, description) # visits tr"
| "visits (_ # tr) = visits tr"

subsection \<open>A compartment tree and the listings that serve it\<close>

text \<open>
  The remote data of a test: a finite tree of compartments, each with the attributes the
  API always sends. \<open>pages client request items\<close> says that the listing which starts at
  \<open>request\<close> and follows the continuation tokens ends, and that its pages, in order, add
  up to \<open>items\<close>; the pages may be cut anywhere and may be empty. \<open>serves\<close> says that every
  compartment of the tree has its children as its listing.
\<close>

datatype ctree = CNode (cid: string) (cname: string) (cdescription: string) (subtrees: "ctree list")

definition item_of :: "ctree \<Rightarrow> Compartment" where
  "item_of t = \<lparr>Compartment_Id = Some (cid t), Compartment_Name = Some (cname t),
                Compartment_Description = Some (cdescription t)\<rparr>"

definition scope_request :: "string \<Rightarrow> ListCompartmentsRequest" where
  "scope_request scope = \<lparr>LCReq_CompartmentId = Some scope, LCReq_Page = None\<rparr>"

inductive pages :: "cloud \<Rightarrow> ListCompartmentsRequest \<Rightarrow> Compartment list \<Rightarrow> bool" where
  last_page:
    "ListCompartments client request = Inr \<lparr>LCResp_Items = items, LCResp_OpcNextPage = None\<rparr>
     \<Longrightarrow> pages client request items"
| next_page:
    "ListCompartments client request = Inr \<lparr>LCResp_Items = items, LCResp_OpcNextPage = Some page\<rparr>
     \<Longrightarrow> pages client (request\<lparr>LCReq_Page := Some page\<rparr>) later
     \<Longrightarrow> pages client request (items @ later)"

fun serves :: "cloud \<Rightarrow> ctree \<Rightarrow> bool" where
  "serves client (CNode ident name description ts) =
     (pages client (scope_request ident) (map item_of ts) \<and> (\<forall>t \<in> set ts. serves client t))"

fun preorder :: "nat \<Rightarrow> ctree \<Rightarrow> (nat \<times> string \<times> string \<times> string) list" where
  "preorder depth (CNode ident name description ts) =
     (depth, ident, name, description) # concat (map (preorder (depth + 1)) ts)"

section \<open>Launching an instance\<close>

record create_flags =
  nameFlag :: string
  compartmentInput :: string
  shapeNameFlag :: string
  imageNameFlag :: string
  subnetIDFlag :: string
  adFlag :: string
  publicKeysFlag :: string
  ocpusFlag :: real
  memoryInGBsFlag :: real

text \<open>
  Step 8 of \<^verbatim>\<open>createCmd\<close>: the loop over \<^verbatim>\<open>keys\<close> with its index \<open>i\<close>. \<open>trim\<close> stands
  for \<^verbatim>\<open>strings.TrimSpace\<close>.
\<close>

fun ssh_keys_loop :: "(string \<Rightarrow> string) \<Rightarrow> string list \<Rightarrow> int \<Rightarrow> string list \<Rightarrow> string \<Rightarrow> string" where
  "ssh_keys_loop trim keys i [] sshKeysString = sshKeysString"
| "ssh_keys_loop trim keys i (key # rest) sshKeysString =
     (let trimmedKey = trim key in
      if trimmedKey \<noteq> [] then
        ssh_keys_loop trim keys (i + 1) rest
          (sshKeysString @ trimmedKey @ (if i < int (length keys) - 1 then [CHR 0x0A] else []))
      else ssh_keys_loop trim keys (i + 1) rest sshKeysString)"

definition ssh_authorized_keys :: "(string \<Rightarrow> string) \<Rightarrow> string \<Rightarrow> string" where
  "ssh_authorized_keys trim publicKeys =
     (let keys = Split publicKeys (CHR '','') in ssh_keys_loop trim keys 0 keys [])"

text \<open>
  Sequencing in the command: \<^verbatim>\<open>log.Fatalf\<close> ends the process, so an error ends the run
  with the trace so far. \<open>config\<close> is a step that reads local configuration only.
\<close>

definition step :: "'a outcome \<Rightarrow> ('a \<Rightarrow> 'b outcome) \<Rightarrow> 'b outcome" where
  "step m k =
     (case m of
        (Inl e, tr) \<Rightarrow> (Inl e, tr)
      | (Inr v, tr) \<Rightarrow> (case k v of (r, tr') \<Rightarrow> (r, tr @ tr')))"

definition config :: "string + 'a \<Rightarrow> 'a outcome" where
  "config r = (case r of Inl err \<Rightarrow> (Inl (ConfigError err), []) | Inr v \<Rightarrow> (Inr v, []))"

definition launch :: "cloud \<Rightarrow> LaunchInstanceRequest \<Rightarrow> LaunchInstanceResponse outcome" where
  "launch client request =
     (case LaunchInstance client request of
        Inl err \<Rightarrow> (Inl (RemoteCallError err), [LaunchInstanceCall request])
      | Inr response \<Rightarrow>
          (case Instance_Id response of
             None \<Rightarrow> (Inl NilPointerDereference, [LaunchInstanceCall request])
           | Some _ \<Rightarrow> (Inr response, [LaunchInstanceCall request])))"

text \<open>
  \<^verbatim>\<open>createCmd\<close>, steps 3 to 14. \<open>now\<close> is the time stamp \<^verbatim>\<open>time.Now().Format(...)\<close>
  of the generated display name.
\<close>

definition createCmd ::
    "cloud \<Rightarrow> (string \<Rightarrow> string) \<Rightarrow> string \<Rightarrow> create_flags \<Rightarrow> LaunchInstanceResponse outcome" where
  "createCmd configProvider trim now flags =
     step (config (NewComputeClient configProvider)) (\<lambda>computeClient.
     step (if compartmentInput flags \<noteq> []
           then resolveCompartmentID configProvider (compartmentInput flags)
           else config (TenancyOCID configProvider)) (\<lambda>compartmentID.
     step (config (TenancyOCID configProvider)) (\<lambda>tenancyOCID.
     step (resolveImageNameToID configProvider (imageNameFlag flags) compartmentID tenancyOCID)
       (\<lambda>imageID.
     step (resolveShapeNameToID configProvider (shapeNameFlag flags) compartmentID imageID)
       (\<lambda>_.
       (let displayName = (if nameFlag flags = [] then ''instance-'' @ now else nameFlag flags);
            sshKeysString = ssh_authorized_keys trim (publicKeysFlag flags)
        in if sshKeysString = [] then (Inl InvalidInputError, [])
           else
             launch configProvider
               \<lparr>Launch_AvailabilityDomain = adFlag flags,
                Launch_CompartmentId = compartmentID,
                Launch_DisplayName = displayName,
                Launch_Shape = shapeNameFlag flags,
                Launch_SubnetId = subnetIDFlag flags,
                Launch_ImageId = imageID,
                Launch_Metadata = [(''ssh_authorized_keys'', sshKeysString)],
                Launch_ShapeConfig =
                  (if ocpusFlag flags \<noteq> 0 \<or> memoryInGBsFlag flags \<noteq> 0
                   then Some (ocpusFlag flags, memoryInGBsFlag flags) else None)\<rparr>))))))"

section \<open>Auxiliary notions for the proofs\<close>

text \<open>
  The error with which the API answers a listing request of the trace, if it does; and the
  property of a walk's result and trace that the first such request is the last event and
  that its error is the result.
\<close>

fun request_error :: "cloud \<Rightarrow> event \<Rightarrow> string option" where
  "request_error client (ListCompartmentsCall request) =
     (case ListCompartments client request of Inl err \<Rightarrow> Some err | Inr _ \<Rightarrow> None)"
| "request_error client _ = None"

fun aborts_at_failure :: "cloud \<Rightarrow> (error + unit) option \<Rightarrow> event list \<Rightarrow> bool" where
  "aborts_at_failure client res [] = True"
| "aborts_at_failure client res (ev # tr) =
     (case request_error client ev of
        Some err \<Rightarrow> tr = [] \<and> res = Some (Inl (RemoteCallError err))
      | None \<Rightarrow> aborts_at_failure client res tr)"


text \<open>
  Growing the stack bound changes nothing once the walk has returned: \<open>finished_le a b\<close>
  says that \<open>a\<close> ran out of frames or is \<open>b\<close>.
\<close>

definition finished_le :: "walk_result \<Rightarrow> walk_result \<Rightarrow> bool" where
  "finished_le a b = (fst a = None \<or> a = b)"


text \<open>
  The walk of the scope of \<open>t\<close> at \<open>depth\<close> returns without error for some stack bound and
  its lines are the compartments below \<open>t\<close> in depth-first pre-order.
\<close>

definition walked :: "cloud \<Rightarrow> ctree \<Rightarrow> nat \<Rightarrow> bool" where
  "walked client t depth =
     (\<exists>n tr. listCompartmentsRecursive n client (scope_request (cid t)) depth = (Some (Inr ()), tr)
        \<and> visits tr = concat (map (preorder depth) (subtrees t)))"


text \<open>The number of compartments of a tree, its root included.\<close>

fun compartments :: "ctree \<Rightarrow> nat" where
  "compartments (CNode ident name description ts) = 1 + sum_list (map compartments ts)"

text \<open>A trace that contains a launch request.\<close>

definition sends_launch :: "event list \<Rightarrow> bool" where
  "sends_launch tr = (\<exists>request. LaunchInstanceCall request \<in> set tr)"

text \<open>
  The keys joined by one line feed between neighbours, which is what a newline-delimited
  value is; and what the loop of step 8 appends for a list of entries: after a non-blank
  entry a line feed unless the entry is the last of the list.
\<close>

fun join_lines :: "string list \<Rightarrow> string" where
  "join_lines [] = []"
| "join_lines [key] = key"
| "join_lines (key # rest) = key @ [CHR 0x0A] @ join_lines rest"

fun packed :: "(string \<Rightarrow> string) \<Rightarrow> string list \<Rightarrow> string" where
  "packed trim [] = []"
| "packed trim (key # rest) =
     (if trim key \<noteq> [] then trim key @ (if rest \<noteq> [] then [CHR 0x0A] else []) else [])
     @ packed trim rest"

section \<open>Test data\<close>

text \<open>
  A tenancy with four compartments at the top, listed in two pages (three, then one), two
  of them with the same name, and one compartment below the first; platform images listed
  under the tenancy, custom images under a compartment; three shapes, one without a name.
  \<open>failing_cloud\<close> is the same with the listing of the first compartment out of service.
\<close>

definition demo_tenancy :: string where
  "demo_tenancy = ''ocid1.tenancy.oc1..root''"

definition demo_db :: ctree where
  "demo_db = CNode ''ocid1.compartment.oc1..db'' ''db'' ''databases'' []"

definition demo_prod :: ctree where
  "demo_prod = CNode ''ocid1.compartment.oc1..prod'' ''prod'' ''production'' [demo_db]"

definition demo_dev1 :: ctree where
  "demo_dev1 = CNode ''ocid1.compartment.oc1..dev1'' ''dev'' ''first'' []"

definition demo_dev2 :: ctree where
  "demo_dev2 = CNode ''ocid1.compartment.oc1..dev2'' ''dev'' ''second'' []"

definition demo_staging :: ctree where
  "demo_staging = CNode ''ocid1.compartment.oc1..stg'' ''staging'' ''staging'' []"

definition demo_tree :: ctree where
  "demo_tree = CNode demo_tenancy ''root'' ''tenancy'' [demo_prod, demo_dev1, demo_dev2, demo_staging]"

definition demo_ListCompartments :: "ListCompartmentsRequest \<Rightarrow> string + ListCompartmentsResponse" where
  "demo_ListCompartments request =
     (if LCReq_CompartmentId request = Some demo_tenancy then
        (if LCReq_Page request = None then
           Inr \<lparr>LCResp_Items = map item_of [demo_prod, demo_dev1, demo_dev2],
                LCResp_OpcNextPage = Some ''2''\<rparr>
         else if LCReq_Page request = Some ''2'' then
           Inr \<lparr>LCResp_Items = map item_of [demo_staging], LCResp_OpcNextPage = None\<rparr>
         else Inl ''InvalidParameter'')
      else if LCReq_CompartmentId request = Some (cid demo_prod) then
        Inr \<lparr>LCResp_Items = map item_of [demo_db], LCResp_OpcNextPage = None\<rparr>
      else Inr \<lparr>LCResp_Items = [], LCResp_OpcNextPage = None\<rparr>)"

definition demo_ListImages :: "ListImagesRequest \<Rightarrow> string + ListImagesResponse" where
  "demo_ListImages request =
     (if LIReq_DisplayName request = Some ''ubuntu'' \<and> LIReq_CompartmentId request = Some demo_tenancy
      then Inr \<lparr>LIResp_Items = [\<lparr>Image_Id = Some ''ocid1.image.oc1..ubuntu1''\<rparr>,
                                  \<lparr>Image_Id = Some ''ocid1.image.oc1..ubuntu2''\<rparr>]\<rparr>
      else if LIReq_DisplayName request = Some ''custom''
                \<and> LIReq_CompartmentId request = Some (cid demo_prod)
      then Inr \<lparr>LIResp_Items = [\<lparr>Image_Id = Some ''ocid1.image.oc1..custom1''\<rparr>,
                                  \<lparr>Image_Id = Some ''ocid1.image.oc1..custom2''\<rparr>]\<rparr>
      else Inr \<lparr>LIResp_Items = []\<rparr>)"

definition demo_cloud :: cloud where
  "demo_cloud =
     \<lparr>TenancyOCID = Inr demo_tenancy,
      NewIdentityClient = Inr (),
      NewComputeClient = Inr (),
      ListCompartments = demo_ListCompartments,
      ListImages = demo_ListImages,
      ListShapes = (\<lambda>request.
        Inr \<lparr>LSResp_Items = [\<lparr>Shape_Shape = Some ''VM.Standard.A1.Flex''\<rparr>,
                              \<lparr>Shape_Shape = None\<rparr>,
                              \<lparr>Shape_Shape = Some ''VM.Standard.E4.Flex''\<rparr>]\<rparr>),
      LaunchInstance = (\<lambda>request.
        Inr \<lparr>Instance_Id = Some ''ocid1.instance.oc1..new'',
             Instance_LifecycleState = ''PROVISIONING''\<rparr>)\<rparr>"

definition failing_cloud :: cloud where
  "failing_cloud =
     demo_cloud\<lparr>ListCompartments := (\<lambda>request.
       if LCReq_CompartmentId request = Some (cid demo_prod) then Inl ''ServiceUnavailable''
       else demo_ListCompartments request)\<rparr>"

text \<open>
  A tenancy whose only compartment has a display name that looks like an identifier of
  another realm.
\<close>

definition realm_compartment :: Compartment where
  "realm_compartment =
     \<lparr>Compartment_Id = Some ''ocid1.compartment.oc1..legacy'',
      Compartment_Name = Some ''ocid1.compartment.oc2.xyz'',
      Compartment_Description = Some ''moved''\<rparr>"

definition realm_cloud :: cloud where
  "realm_cloud =
     demo_cloud\<lparr>ListCompartments := (\<lambda>request.
       Inr \<lparr>LCResp_Items = [realm_compartment], LCResp_OpcNextPage = None\<rparr>)\<rparr>"

definition demo_flags :: create_flags where
  "demo_flags =
     \<lparr>nameFlag = ''web'',
      compartmentInput = ''prod'',
      shapeNameFlag = ''VM.Standard.E4.Flex'',
      imageNameFlag = ''ubuntu'',
      subnetIDFlag = ''ocid1.subnet.oc1..net'',
      adFlag = ''AD-1'',
      publicKeysFlag = ''ssh-rsa AAAA'',
      ocpusFlag = 0,
      memoryInGBsFlag = 0\<rparr>"


text \<open>The equations that unfold the test data.\<close>

lemmas demo_defs = demo_tenancy_def demo_db_def demo_prod_def demo_dev1_def demo_dev2_def
  demo_staging_def demo_tree_def demo_ListCompartments_def demo_ListImages_def demo_cloud_def
  failing_cloud_def demo_flags_def item_of_def scope_request_def

section \<open>Properties of the tree walker\<close>

lemma then_walk_simps:
  "then_walk (Some (Inr u), tr) rest = (fst rest, tr @ snd rest)"
  "then_walk (Some (Inl e), tr) rest = (Some (Inl e), tr)"
  "then_walk (None, tr) rest = (None, tr)"
  by (simp_all add: then_walk_def split: prod.splits)

lemma finished_le_refl: "finished_le a a"
  by (simp add: finished_le_def)

lemma then_walk_mono:
  "finished_le a a' \<Longrightarrow> finished_le b b' \<Longrightarrow> finished_le (then_walk a b) (then_walk a' b')"
  by (cases a; cases a'; cases b; cases b')
     (auto simp: finished_le_def then_walk_def split: option.splits sum.splits)

lemma walk_fuel_step:
  "finished_le (listCompartmentsRecursive fuel client request depth)
               (listCompartmentsRecursive (Suc fuel) client request depth)"
  "finished_le (walk_items fuel client items depth) (walk_items (Suc fuel) client items depth)"
proof (induction fuel client request depth and fuel client items depth
       rule: listCompartmentsRecursive_walk_items.induct)
  case (1 client request depth)
  show ?case by (simp add: finished_le_def)
next
  case (2 fuel client request depth)
  show ?case
  proof (cases "ListCompartments client request")
    case (Inl err)
    then show ?thesis by (simp add: finished_le_def)
  next
    case (Inr response)
    have items: "finished_le (walk_items fuel client (LCResp_Items response) depth)
                   (walk_items (Suc fuel) client (LCResp_Items response) depth)"
      using "2.IH"(1) [OF Inr] .
    have page: "finished_le
        (case LCResp_OpcNextPage response of None \<Rightarrow> (Some (Inr ()), [])
         | Some page \<Rightarrow> listCompartmentsRecursive fuel client (request\<lparr>LCReq_Page := Some page\<rparr>) depth)
        (case LCResp_OpcNextPage response of None \<Rightarrow> (Some (Inr ()), [])
         | Some page \<Rightarrow> listCompartmentsRecursive (Suc fuel) client (request\<lparr>LCReq_Page := Some page\<rparr>) depth)"
      using "2.IH"(2) [OF Inr] by (cases "LCResp_OpcNextPage response") (simp_all add: finished_le_refl)
    show ?thesis
      using then_walk_mono [OF finished_le_refl then_walk_mono [OF items page]] Inr
      by (simp del: listCompartmentsRecursive.simps(2) add: listCompartmentsRecursive.simps(2) [of fuel] listCompartmentsRecursive.simps(2) [of "Suc fuel"])
  qed
next
  case (3 fuel client depth)
  show ?case by (simp add: finished_le_def)
next
  case (4 fuel client compartment rest depth)
  show ?case
  proof (cases "Compartment_Id compartment")
    case None
    then show ?thesis by (simp add: deref_def finished_le_def)
  next
    case id: (Some ident)
    show ?thesis
    proof (cases "Compartment_Name compartment")
      case None
      then show ?thesis using id by (simp add: deref_def finished_le_def)
    next
      case nm: (Some name)
      show ?thesis
      proof (cases "Compartment_Description compartment")
        case None
        then show ?thesis using id nm by (simp add: deref_def finished_le_def)
      next
        case ds: (Some description)
        have sub: "finished_le
            (listCompartmentsRecursive fuel client
               \<lparr>LCReq_CompartmentId = Compartment_Id compartment, LCReq_Page = None\<rparr> (depth + 1))
            (listCompartmentsRecursive (Suc fuel) client
               \<lparr>LCReq_CompartmentId = Compartment_Id compartment, LCReq_Page = None\<rparr> (depth + 1))"
          using "4.IH"(1) [of ident name description] id nm ds by (simp add: deref_def)
        have tl: "finished_le (walk_items fuel client rest depth) (walk_items (Suc fuel) client rest depth)"
          using "4.IH"(2) [of ident name description] id nm ds by (simp add: deref_def)
        show ?thesis
          using then_walk_mono [OF finished_le_refl then_walk_mono [OF sub tl]] id nm ds
          by (simp add: deref_def del: listCompartmentsRecursive.simps)
      qed
    qed
  qed
qed


lemma walk_fuel_mono:
  assumes "n \<le> m" and "listCompartmentsRecursive n client request depth = (Some r, tr)"
  shows "listCompartmentsRecursive m client request depth = (Some r, tr)"
  using assms
proof (induction m)
  case 0
  then show ?case by simp
next
  case (Suc m)
  show ?case
  proof (cases "n = Suc m")
    case True
    with Suc.prems show ?thesis by simp
  next
    case False
    with Suc have "listCompartmentsRecursive m client request depth = (Some r, tr)" by simp
    with walk_fuel_step(1) [of m client request depth] show ?thesis
      by (simp add: finished_le_def)
  qed
qed

lemma walk_items_fuel_mono:
  assumes "n \<le> m" and "walk_items n client items depth = (Some r, tr)"
  shows "walk_items m client items depth = (Some r, tr)"
  using assms
proof (induction m)
  case 0
  then show ?case by simp
next
  case (Suc m)
  show ?case
  proof (cases "n = Suc m")
    case True
    with Suc.prems show ?thesis by simp
  next
    case False
    with Suc have "walk_items m client items depth = (Some r, tr)" by simp
    with walk_fuel_step(2) [of m client items depth] show ?thesis
      by (simp add: finished_le_def)
  qed
qed

lemma visits_append: "visits (xs @ ys) = visits xs @ visits ys"
  by (induction xs rule: visits.induct) simp_all

lemma preorder_unfold:
  "preorder depth t = (depth, cid t, cname t, cdescription t) # concat (map (preorder (depth + 1)) (subtrees t))"
  by (cases t) simp

lemma walk_items_forest:
  assumes "\<forall>t \<in> set ts. walked client t (depth + 1)"
  shows "\<exists>n tr. walk_items n client (map item_of ts) depth = (Some (Inr ()), tr)
           \<and> visits tr = concat (map (preorder depth) ts)"
  using assms
proof (induction ts)
  case Nil
  show ?case by simp
next
  case (Cons t ts)
  from Cons.prems obtain n1 tr1 where
    sub: "listCompartmentsRecursive n1 client (scope_request (cid t)) (depth + 1) = (Some (Inr ()), tr1)"
    and v1: "visits tr1 = concat (map (preorder (depth + 1)) (subtrees t))"
    by (auto simp: walked_def)
  from Cons obtain n2 tr2 where
    rest: "walk_items n2 client (map item_of ts) depth = (Some (Inr ()), tr2)"
    and v2: "visits tr2 = concat (map (preorder depth) ts)"
    by auto
  let ?n = "max n1 n2"
  have sub': "listCompartmentsRecursive ?n client (scope_request (cid t)) (depth + 1) = (Some (Inr ()), tr1)"
    using walk_fuel_mono [OF _ sub, of ?n] by simp
  have rest': "walk_items ?n client (map item_of ts) depth = (Some (Inr ()), tr2)"
    using walk_items_fuel_mono [OF _ rest, of ?n] by simp
  have "walk_items ?n client (map item_of (t # ts)) depth =
          (Some (Inr ()), PrintCompartment depth (cid t) (cname t) (cdescription t) # tr1 @ tr2)"
    using sub' rest' by (simp add: item_of_def deref_def then_walk_simps scope_request_def)
  moreover have "visits (PrintCompartment depth (cid t) (cname t) (cdescription t) # tr1 @ tr2)
                   = concat (map (preorder depth) (t # ts))"
    using v1 v2 by (simp add: visits_append preorder_unfold [of depth t])
  ultimately show ?case by blast
qed

lemma walk_pages:
  assumes "pages client request items"
    and "items = map item_of ts"
    and "\<forall>t \<in> set ts. walked client t (depth + 1)"
  shows "\<exists>n tr. listCompartmentsRecursive n client request depth = (Some (Inr ()), tr)
           \<and> visits tr = concat (map (preorder depth) ts)"
  using assms
proof (induction arbitrary: ts rule: pages.induct)
  case (last_page client request items)
  from walk_items_forest [OF last_page(3)] last_page(2) obtain n tr where
    it: "walk_items n client items depth = (Some (Inr ()), tr)"
    and v: "visits tr = concat (map (preorder depth) ts)"
    by auto
  have "listCompartmentsRecursive (Suc n) client request depth
          = (Some (Inr ()), ListCompartmentsCall request # tr)"
    using last_page(1) it by (simp add: then_walk_simps)
  with v show ?case by (metis visits.simps(3))
next
  case (next_page client request items page later)
  from next_page.prems(1) obtain ts1 ts2 where
    ts: "ts = ts1 @ ts2" and i1: "items = map item_of ts1" and i2: "later = map item_of ts2"
    by (auto simp: append_eq_map_conv)
  have w1: "\<forall>t \<in> set ts1. walked client t (depth + 1)"
    and w2: "\<forall>t \<in> set ts2. walked client t (depth + 1)"
    using next_page.prems(2) ts by auto
  from walk_items_forest [OF w1] i1 obtain n1 tr1 where
    it: "walk_items n1 client items depth = (Some (Inr ()), tr1)"
    and v1: "visits tr1 = concat (map (preorder depth) ts1)"
    by auto
  from next_page.IH [OF i2 w2] obtain n2 tr2 where
    nx: "listCompartmentsRecursive n2 client (request\<lparr>LCReq_Page := Some page\<rparr>) depth = (Some (Inr ()), tr2)"
    and v2: "visits tr2 = concat (map (preorder depth) ts2)"
    by auto
  let ?n = "max n1 n2"
  have it': "walk_items ?n client items depth = (Some (Inr ()), tr1)"
    using walk_items_fuel_mono [OF _ it, of ?n] by simp
  have nx': "listCompartmentsRecursive ?n client (request\<lparr>LCReq_Page := Some page\<rparr>) depth = (Some (Inr ()), tr2)"
    using walk_fuel_mono [OF _ nx, of ?n] by simp
  have "listCompartmentsRecursive (Suc ?n) client request depth
          = (Some (Inr ()), ListCompartmentsCall request # tr1 @ tr2)"
    using next_page.hyps(1) it' nx' by (simp add: then_walk_simps)
  moreover have "visits (ListCompartmentsCall request # tr1 @ tr2) = concat (map (preorder depth) ts)"
    using v1 v2 ts by (simp add: visits_append)
  ultimately show ?case by blast
qed

lemma serves_walked_all: "serves client t \<Longrightarrow> \<forall>d. walked client t d"
proof (induction t)
  case (CNode ident name description ts)
  have pg: "pages client (scope_request ident) (map item_of ts)"
    and sub: "\<forall>t \<in> set ts. serves client t"
    using CNode.prems by simp_all
  show ?case
  proof
    fix d
    have "\<forall>t \<in> set ts. walked client t (d + 1)"
      using CNode.IH sub by blast
    from walk_pages [OF pg refl this] show "walked client (CNode ident name description ts) d"
      by (simp add: walked_def)
  qed
qed



subsection \<open>A failing request ends the walk\<close>

lemma aborts_append:
  "aborts_at_failure client (Some (Inr u)) tr1 \<Longrightarrow> aborts_at_failure client r tr2
   \<Longrightarrow> aborts_at_failure client r (tr1 @ tr2)"
  by (induction tr1) (auto split: option.splits)

lemma aborts_then_walk:
  assumes "aborts_at_failure client (fst a) (snd a)" and "aborts_at_failure client (fst b) (snd b)"
  shows "aborts_at_failure client (fst (then_walk a b)) (snd (then_walk a b))"
proof (cases a)
  case (Pair ra tra)
  show ?thesis
  proof (cases ra)
    case None
    with Pair assms show ?thesis by (simp add: then_walk_simps)
  next
    case (Some v)
    show ?thesis
    proof (cases v)
      case (Inl e)
      with Some Pair assms show ?thesis by (simp add: then_walk_simps)
    next
      case (Inr u)
      with Some Pair assms show ?thesis by (simp add: then_walk_simps aborts_append)
    qed
  qed
qed

lemma walk_aborts:
  "aborts_at_failure client (fst (listCompartmentsRecursive fuel client request depth))
     (snd (listCompartmentsRecursive fuel client request depth))"
  "aborts_at_failure client (fst (walk_items fuel client items depth))
     (snd (walk_items fuel client items depth))"
proof (induction fuel client request depth and fuel client items depth
       rule: listCompartmentsRecursive_walk_items.induct)
  case (1 client request depth)
  show ?case by simp
next
  case (2 fuel client request depth)
  show ?case
  proof (cases "ListCompartments client request")
    case (Inl err)
    then show ?thesis by simp
  next
    case (Inr response)
    let ?next = "case LCResp_OpcNextPage response of None \<Rightarrow> (Some (Inr ()), [])
         | Some page \<Rightarrow> listCompartmentsRecursive fuel client (request\<lparr>LCReq_Page := Some page\<rparr>) depth"
    have nx: "aborts_at_failure client (fst ?next) (snd ?next)"
      using "2.IH"(2) [OF Inr] by (cases "LCResp_OpcNextPage response") simp_all
    have hd: "aborts_at_failure client (fst (Some (Inr ()), [ListCompartmentsCall request]))
                (snd (Some (Inr () :: error + unit), [ListCompartmentsCall request]))"
      using Inr by simp
    show ?thesis
      using aborts_then_walk [OF hd aborts_then_walk [OF "2.IH"(1) [OF Inr] nx]] Inr
      by simp
  qed
next
  case (3 fuel client depth)
  show ?case by simp
next
  case (4 fuel client compartment rest depth)
  show ?case
  proof (cases "Compartment_Id compartment")
    case None
    then show ?thesis by (simp add: deref_def)
  next
    case id: (Some ident)
    show ?thesis
    proof (cases "Compartment_Name compartment")
      case None
      then show ?thesis using id by (simp add: deref_def)
    next
      case nm: (Some name)
      show ?thesis
      proof (cases "Compartment_Description compartment")
        case None
        then show ?thesis using id nm by (simp add: deref_def)
      next
        case ds: (Some description)
        let ?sub = "listCompartmentsRecursive fuel client
               \<lparr>LCReq_CompartmentId = Compartment_Id compartment, LCReq_Page = None\<rparr> (depth + 1)"
        have sub: "aborts_at_failure client (fst ?sub) (snd ?sub)"
          using "4.IH"(1) [of ident name description] id nm ds by (simp add: deref_def)
        have tl: "aborts_at_failure client (fst (walk_items fuel client rest depth))
                    (snd (walk_items fuel client rest depth))"
          using "4.IH"(2) [of ident name description] id nm ds by (simp add: deref_def)
        have hd: "aborts_at_failure client
                    (fst (Some (Inr () :: error + unit), [PrintCompartment depth ident name description]))
                    (snd (Some (Inr () :: error + unit), [PrintCompartment depth ident name description]))"
          by simp
        show ?thesis
          using aborts_then_walk [OF hd aborts_then_walk [OF sub tl]] id nm ds
          by (simp add: deref_def del: listCompartmentsRecursive.simps)
      qed
    qed
  qed
qed

lemma aborts_at_failure_last:
  assumes "aborts_at_failure client res (pre @ ListCompartmentsCall request # post)"
    and "ListCompartments client request = Inl err"
  shows "post = [] \<and> res = Some (Inl (RemoteCallError err))"
  using assms
  by (induction pre) (auto split: option.splits)


subsection \<open>Every compartment of the tree is visited once, in pre-order\<close>

lemma length_preorder: "length (preorder depth t) = compartments t"
proof (induction t arbitrary: depth)
  case (CNode ident name description ts)
  have "(\<Sum>t\<leftarrow>ts. length (preorder (Suc depth) t)) = sum_list (map compartments ts)"
    using CNode.IH by (auto intro!: arg_cong [where f = sum_list])
  then show ?case by (simp add: length_concat comp_def)
qed

lemma length_preorder_forest:
  "length (concat (map (preorder depth) ts)) = sum_list (map compartments ts)"
  by (simp add: length_concat comp_def length_preorder)

lemma demo_root_pages:
  "pages demo_cloud (scope_request demo_tenancy)
     (map item_of [demo_prod, demo_dev1, demo_dev2, demo_staging])"
proof -
  have second: "pages demo_cloud ((scope_request demo_tenancy)\<lparr>LCReq_Page := Some ''2''\<rparr>)
                  (map item_of [demo_staging])"
    by (rule pages.last_page) (simp add: demo_cloud_def demo_ListCompartments_def scope_request_def)
  have "pages demo_cloud (scope_request demo_tenancy)
          (map item_of [demo_prod, demo_dev1, demo_dev2] @ map item_of [demo_staging])"
    by (rule pages.next_page [OF _ second])
       (simp add: demo_cloud_def demo_ListCompartments_def scope_request_def)
  then show ?thesis by simp
qed

lemma demo_serves: "serves demo_cloud demo_tree"
proof -
  have prod: "pages demo_cloud (scope_request (cid demo_prod)) (map item_of [demo_db])"
    by (rule pages.last_page) (simp add: demo_defs)
  have leaf: "pages demo_cloud (scope_request (cid t)) (map item_of [])"
    if "t \<in> {demo_db, demo_dev1, demo_dev2, demo_staging}" for t
    using that by (intro pages.last_page) (auto simp: demo_defs)
  show ?thesis
    using demo_root_pages prod leaf [of demo_db] leaf [of demo_dev1] leaf [of demo_dev2]
      leaf [of demo_staging]
    by (simp add: demo_tree_def demo_prod_def demo_db_def demo_dev1_def demo_dev2_def
        demo_staging_def)
qed

text \<open>
  Claim C7. Whenever the listing API serves a finite compartment tree, however the listing
  of each scope is cut into pages (a scope's listing is complete only at the page without
  token), the walk started at the root scope returns without error for every large enough
  bound on the call stack, and the lines it prints are the compartments below the root in
  depth-first pre-order, each tree node once: as many lines as there are compartments.
\<close>

theorem walk_visits_every_compartment_once:
  assumes "serves client tree"
  shows "\<exists>fuel. \<forall>n\<ge>fuel.
           fst (listCompartmentsRecursive n client (scope_request (cid tree)) depth) = Some (Inr ())
         \<and> visits (snd (listCompartmentsRecursive n client (scope_request (cid tree)) depth))
             = concat (map (preorder depth) (subtrees tree))
         \<and> length (visits (snd (listCompartmentsRecursive n client (scope_request (cid tree)) depth)))
             = sum_list (map compartments (subtrees tree))"
proof -
  from serves_walked_all [OF assms] have "walked client tree depth" by simp
  then obtain fuel tr where
    run: "listCompartmentsRecursive fuel client (scope_request (cid tree)) depth = (Some (Inr ()), tr)"
    and v: "visits tr = concat (map (preorder depth) (subtrees tree))"
    by (auto simp: walked_def)
  have "\<forall>n\<ge>fuel. listCompartmentsRecursive n client (scope_request (cid tree)) depth
                    = (Some (Inr ()), tr)"
    using walk_fuel_mono [OF _ run] by blast
  with v show ?thesis
    by (metis fst_conv snd_conv length_preorder_forest)
qed

theorem walk_visits_every_compartment_once_witness:
  "\<exists>fuel. \<forall>n\<ge>fuel.
      fst (listCompartmentsRecursive n demo_cloud (scope_request demo_tenancy) 0) = Some (Inr ())
    \<and> visits (snd (listCompartmentsRecursive n demo_cloud (scope_request demo_tenancy) 0))
        = [(0, ''ocid1.compartment.oc1..prod'', ''prod'', ''production''),
           (1, ''ocid1.compartment.oc1..db'', ''db'', ''databases''),
           (0, ''ocid1.compartment.oc1..dev1'', ''dev'', ''first''),
           (0, ''ocid1.compartment.oc1..dev2'', ''dev'', ''second''),
           (0, ''ocid1.compartment.oc1..stg'', ''staging'', ''staging'')]
    \<and> length (visits (snd (listCompartmentsRecursive n demo_cloud (scope_request demo_tenancy) 0)))
        = 5"
  using walk_visits_every_compartment_once [OF demo_serves, of 0]
  by (simp add: demo_tree_def demo_prod_def demo_db_def demo_dev1_def demo_dev2_def
      demo_staging_def eval_nat_numeral)

text \<open>
  Claim C8. If a listing request sent during the walk is answered with an error, that
  request is the last event of the walk: nothing is requested or printed after it, the walk
  has returned (it did not run out of stack), and its result is that error.
\<close>

theorem walk_aborts_at_first_failure:
  assumes "listCompartmentsRecursive fuel client request depth
             = (res, pre @ ListCompartmentsCall failing # post)"
    and "ListCompartments client failing = Inl err"
  shows "post = [] \<and> res = Some (Inl (RemoteCallError err))"
  using walk_aborts(1) [of client fuel request depth] assms
  by (simp add: aborts_at_failure_last)

theorem walk_aborts_at_first_failure_witness:
  "ListCompartments failing_cloud (scope_request (cid demo_prod)) = Inl ''ServiceUnavailable''
   \<and> listCompartmentsRecursive 3 failing_cloud (scope_request demo_tenancy) 0
       = (Some (Inl (RemoteCallError ''ServiceUnavailable'')),
          [ListCompartmentsCall (scope_request demo_tenancy),
           PrintCompartment 0 ''ocid1.compartment.oc1..prod'' ''prod'' ''production'',
           ListCompartmentsCall (scope_request (cid demo_prod))])"
proof -
  have fail: "ListCompartments failing_cloud (scope_request (cid demo_prod)) = Inl ''ServiceUnavailable''"
    by (simp add: demo_defs)
  have run: "listCompartmentsRecursive 3 failing_cloud (scope_request demo_tenancy) 0
       = (fst (listCompartmentsRecursive 3 failing_cloud (scope_request demo_tenancy) 0),
          [ListCompartmentsCall (scope_request demo_tenancy),
           PrintCompartment 0 ''ocid1.compartment.oc1..prod'' ''prod'' ''production'']
          @ ListCompartmentsCall (scope_request (cid demo_prod))
          # drop 3 (snd (listCompartmentsRecursive 3 failing_cloud (scope_request demo_tenancy) 0)))"
    by (simp add: numeral_3_eq_3 demo_defs then_walk_simps deref_def)
  from walk_aborts_at_first_failure [OF run fail] fail run show ?thesis
    by simp
qed



section \<open>Properties of identifier resolution\<close>

lemma match_compartment_first:
  assumes "\<forall>c \<in> set items. Compartment_Name c \<noteq> None"
    and "filter (\<lambda>c. Compartment_Name c = Some input) items = m # ms"
  shows "match_compartment items input = deref (Compartment_Id m)"
  using assms
proof (induction items)
  case Nil
  then show ?case by simp
next
  case (Cons c items)
  then show ?case by (cases "Compartment_Name c = Some input") auto
qed

lemma match_compartment_none:
  assumes "\<forall>c \<in> set items. \<exists>name. Compartment_Name c = Some name \<and> name \<noteq> input"
  shows "match_compartment items input = Inl NotFoundError"
  using assms by (induction items) auto

lemma match_shape_eq:
  "match_shape items shapeName =
     (if Some shapeName \<in> Shape_Shape ` set items then Inr shapeName else Inl NotFoundError)"
  by (induction items) auto



text \<open>
  Claim C4. If the listing filtered by display name is empty in the target compartment and
  not empty under the tenancy, image resolution returns the identifier of the first item
  of the tenancy's listing; and it fails with \<open>NotFoundError\<close> exactly when both listings
  succeed and are empty.
\<close>

theorem image_fallback_to_tenancy:
  "(ListImages client \<lparr>LIReq_CompartmentId = Some compartmentID, LIReq_DisplayName = Some imageName\<rparr>
       = Inr primary
     \<and> LIResp_Items primary = []
     \<and> ListImages client \<lparr>LIReq_CompartmentId = Some tenancyOCID, LIReq_DisplayName = Some imageName\<rparr>
       = Inr fallback
     \<and> LIResp_Items fallback = m # ms \<and> Image_Id m = Some ident
     \<longrightarrow> fst (resolveImageNameToID client imageName compartmentID tenancyOCID) = Inr ident)
   \<and> (fst (resolveImageNameToID client imageName compartmentID tenancyOCID) = Inl NotFoundError
      \<longleftrightarrow> (\<exists>primary fallback.
             ListImages client \<lparr>LIReq_CompartmentId = Some compartmentID, LIReq_DisplayName = Some imageName\<rparr>
               = Inr primary
           \<and> LIResp_Items primary = []
           \<and> ListImages client \<lparr>LIReq_CompartmentId = Some tenancyOCID, LIReq_DisplayName = Some imageName\<rparr>
               = Inr fallback
           \<and> LIResp_Items fallback = []))"
  by (auto simp: resolveImageNameToID_def deref_def Let_def split: sum.splits option.splits)

theorem image_fallback_to_tenancy_witness:
  "fst (resolveImageNameToID demo_cloud ''ubuntu'' ''ocid1.compartment.oc1..prod'' demo_tenancy)
     = Inr ''ocid1.image.oc1..ubuntu1''
   \<and> fst (resolveImageNameToID demo_cloud ''debian'' ''ocid1.compartment.oc1..prod'' demo_tenancy)
     = Inl NotFoundError"
  using image_fallback_to_tenancy [of demo_cloud "''ocid1.compartment.oc1..prod''" "''ubuntu''"
      "\<lparr>LIResp_Items = []\<rparr>" demo_tenancy
      "\<lparr>LIResp_Items = [\<lparr>Image_Id = Some ''ocid1.image.oc1..ubuntu1''\<rparr>,
                         \<lparr>Image_Id = Some ''ocid1.image.oc1..ubuntu2''\<rparr>]\<rparr>"
      "\<lparr>Image_Id = Some ''ocid1.image.oc1..ubuntu1''\<rparr>"
      "[\<lparr>Image_Id = Some ''ocid1.image.oc1..ubuntu2''\<rparr>]" "''ocid1.image.oc1..ubuntu1''"]
    image_fallback_to_tenancy [of demo_cloud "''ocid1.compartment.oc1..prod''" "''debian''"
      _ demo_tenancy]
  by (simp add: demo_cloud_def demo_ListImages_def demo_tenancy_def demo_prod_def)


text \<open>
  Claim C3. With two or more matches in the listing that is searched, resolution succeeds
  with the identifier of the first match in the order of the response: for compartments the
  first item of the response whose name is the input, for images the first item of the
  primary listing, or of the tenancy's listing when the primary one is empty. The items
  are assumed to carry the attributes the code dereferences (every compartment a name, the
  chosen item an identifier), as the API's responses do.
\<close>

theorem first_match_wins:
  "(\<not> (HasPrefix input ''ocid1.compartment.oc1.'' \<or> HasPrefix input ''ocid1.tenancy.oc1.'')
     \<and> TenancyOCID client = Inr tenancyOCID \<and> NewIdentityClient client = Inr u
     \<and> ListCompartments client (scope_request tenancyOCID) = Inr response
     \<and> (\<forall>c \<in> set (LCResp_Items response). Compartment_Name c \<noteq> None)
     \<and> filter (\<lambda>c. Compartment_Name c = Some input) (LCResp_Items response) = c1 # c2 # cs
     \<and> Compartment_Id c1 = Some ident
     \<longrightarrow> fst (resolveCompartmentID client input) = Inr ident)
   \<and> (ListImages client \<lparr>LIReq_CompartmentId = Some compartmentID, LIReq_DisplayName = Some imageName\<rparr>
         = Inr primary
      \<and> LIResp_Items primary = m1 # m2 # ms \<and> Image_Id m1 = Some imageID
      \<longrightarrow> fst (resolveImageNameToID client imageName compartmentID tenancy) = Inr imageID)
   \<and> (ListImages client \<lparr>LIReq_CompartmentId = Some compartmentID, LIReq_DisplayName = Some imageName\<rparr>
         = Inr \<lparr>LIResp_Items = []\<rparr>
      \<and> ListImages client \<lparr>LIReq_CompartmentId = Some tenancy, LIReq_DisplayName = Some imageName\<rparr>
         = Inr fallback
      \<and> LIResp_Items fallback = m1 # m2 # ms \<and> Image_Id m1 = Some imageID
      \<longrightarrow> fst (resolveImageNameToID client imageName compartmentID tenancy) = Inr imageID)"
proof (intro conjI impI)
  assume a: "\<not> (HasPrefix input ''ocid1.compartment.oc1.'' \<or> HasPrefix input ''ocid1.tenancy.oc1.'')
     \<and> TenancyOCID client = Inr tenancyOCID \<and> NewIdentityClient client = Inr u
     \<and> ListCompartments client (scope_request tenancyOCID) = Inr response
     \<and> (\<forall>c \<in> set (LCResp_Items response). Compartment_Name c \<noteq> None)
     \<and> filter (\<lambda>c. Compartment_Name c = Some input) (LCResp_Items response) = c1 # c2 # cs
     \<and> Compartment_Id c1 = Some ident"
  then have "match_compartment (LCResp_Items response) input = Inr ident"
    using match_compartment_first [of "LCResp_Items response" input c1 "c2 # cs"]
    by (simp add: deref_def)
  with a show "fst (resolveCompartmentID client input) = Inr ident"
    by (simp add: resolveCompartmentID_def scope_request_def)
next
  assume "ListImages client \<lparr>LIReq_CompartmentId = Some compartmentID, LIReq_DisplayName = Some imageName\<rparr>
         = Inr primary
      \<and> LIResp_Items primary = m1 # m2 # ms \<and> Image_Id m1 = Some imageID"
  then show "fst (resolveImageNameToID client imageName compartmentID tenancy) = Inr imageID"
    by (simp add: resolveImageNameToID_def deref_def)
next
  assume "ListImages client \<lparr>LIReq_CompartmentId = Some compartmentID, LIReq_DisplayName = Some imageName\<rparr>
         = Inr \<lparr>LIResp_Items = []\<rparr>
      \<and> ListImages client \<lparr>LIReq_CompartmentId = Some tenancy, LIReq_DisplayName = Some imageName\<rparr>
         = Inr fallback
      \<and> LIResp_Items fallback = m1 # m2 # ms \<and> Image_Id m1 = Some imageID"
  then show "fst (resolveImageNameToID client imageName compartmentID tenancy) = Inr imageID"
    by (simp add: resolveImageNameToID_def deref_def)
qed

theorem first_match_wins_witness:
  "fst (resolveCompartmentID demo_cloud ''dev'') = Inr ''ocid1.compartment.oc1..dev1''
   \<and> fst (resolveImageNameToID demo_cloud ''custom'' ''ocid1.compartment.oc1..prod'' demo_tenancy)
       = Inr ''ocid1.image.oc1..custom1''
   \<and> fst (resolveImageNameToID demo_cloud ''ubuntu'' ''ocid1.compartment.oc1..prod'' demo_tenancy)
       = Inr ''ocid1.image.oc1..ubuntu1''"
proof -
  note inst =
    first_match_wins [where client = demo_cloud and input = "''dev''"
      and tenancyOCID = demo_tenancy and u = "()"
      and response = "\<lparr>LCResp_Items = map item_of [demo_prod, demo_dev1, demo_dev2],
                          LCResp_OpcNextPage = Some ''2''\<rparr>"
      and ?c1.0 = "item_of demo_dev1" and ?c2.0 = "item_of demo_dev2" and cs = "[]"
      and ident = "''ocid1.compartment.oc1..dev1''"
      and compartmentID = "''ocid1.compartment.oc1..prod''" and imageName = "''custom''"
      and tenancy = demo_tenancy
      and primary = "\<lparr>LIResp_Items = [\<lparr>Image_Id = Some ''ocid1.image.oc1..custom1''\<rparr>,
                                         \<lparr>Image_Id = Some ''ocid1.image.oc1..custom2''\<rparr>]\<rparr>"
      and ?m1.0 = "\<lparr>Image_Id = Some ''ocid1.image.oc1..custom1''\<rparr>"
      and ?m2.0 = "\<lparr>Image_Id = Some ''ocid1.image.oc1..custom2''\<rparr>" and ms = "[]"
      and imageID = "''ocid1.image.oc1..custom1''"]
  note inst' =
    first_match_wins [where client = demo_cloud
      and compartmentID = "''ocid1.compartment.oc1..prod''" and imageName = "''ubuntu''"
      and tenancy = demo_tenancy
      and fallback = "\<lparr>LIResp_Items = [\<lparr>Image_Id = Some ''ocid1.image.oc1..ubuntu1''\<rparr>,
                                          \<lparr>Image_Id = Some ''ocid1.image.oc1..ubuntu2''\<rparr>]\<rparr>"
      and ?m1.0 = "\<lparr>Image_Id = Some ''ocid1.image.oc1..ubuntu1''\<rparr>"
      and ?m2.0 = "\<lparr>Image_Id = Some ''ocid1.image.oc1..ubuntu2''\<rparr>" and ms = "[]"
      and imageID = "''ocid1.image.oc1..ubuntu1''"]
  have c: "fst (resolveCompartmentID demo_cloud ''dev'') = Inr ''ocid1.compartment.oc1..dev1''"
    using inst [THEN conjunct1] by (simp add: demo_defs HasPrefix_def)
  have i: "fst (resolveImageNameToID demo_cloud ''custom'' ''ocid1.compartment.oc1..prod'' demo_tenancy)
       = Inr ''ocid1.image.oc1..custom1''"
    using inst [THEN conjunct2, THEN conjunct1] by (simp add: demo_defs)
  have f: "fst (resolveImageNameToID demo_cloud ''ubuntu'' ''ocid1.compartment.oc1..prod'' demo_tenancy)
       = Inr ''ocid1.image.oc1..ubuntu1''"
    using inst' [THEN conjunct2, THEN conjunct2] by (simp add: demo_defs)
  from c i f show ?thesis by simp
qed

text \<open>
  Claim C1 fails for images: \<^verbatim>\<open>resolveImageNameToID\<close> has no test for a literal
  identifier. Given an image identifier it sends both listing requests with the identifier
  as display name and, nothing being named so, fails.
\<close>

theorem image_literal_identifier_counterexample:
  "resolveImageNameToID demo_cloud ''ocid1.image.oc1..ubuntu1'' ''ocid1.compartment.oc1..prod''
     ''ocid1.tenancy.oc1..root''
   = (Inl NotFoundError,
      [ListImagesCall \<lparr>LIReq_CompartmentId = Some ''ocid1.compartment.oc1..prod'',
                       LIReq_DisplayName = Some ''ocid1.image.oc1..ubuntu1''\<rparr>,
       ListImagesCall \<lparr>LIReq_CompartmentId = Some ''ocid1.tenancy.oc1..root'',
                       LIReq_DisplayName = Some ''ocid1.image.oc1..ubuntu1''\<rparr>])"
  by (simp add: resolveImageNameToID_def demo_cloud_def demo_ListImages_def demo_tenancy_def
      demo_prod_def)

text \<open>
  Claim C1, amended. Compartment resolution returns an input that starts with
  \<^verbatim>\<open>ocid1.compartment.oc1.\<close> or \<^verbatim>\<open>ocid1.tenancy.oc1.\<close> unchanged and sends nothing. Image
  resolution treats every input as a display name: its first event is always the listing
  request for the target compartment.
\<close>

theorem literal_identifier_shortcut:
  "(HasPrefix input ''ocid1.compartment.oc1.'' \<or> HasPrefix input ''ocid1.tenancy.oc1.''
      \<longrightarrow> resolveCompartmentID client input = (Inr input, []))
   \<and> (\<exists>later. snd (resolveImageNameToID client imageName compartmentID tenancyOCID)
         = ListImagesCall \<lparr>LIReq_CompartmentId = Some compartmentID,
                           LIReq_DisplayName = Some imageName\<rparr> # later)"
  by (simp add: resolveCompartmentID_def resolveImageNameToID_def Let_def split: sum.splits)

theorem literal_identifier_shortcut_witness:
  "HasPrefix ''ocid1.compartment.oc1..prod'' ''ocid1.compartment.oc1.''
   \<and> resolveCompartmentID failing_cloud ''ocid1.compartment.oc1..prod''
       = (Inr ''ocid1.compartment.oc1..prod'', [])
   \<and> resolveCompartmentID failing_cloud ''ocid1.tenancy.oc1..root''
       = (Inr ''ocid1.tenancy.oc1..root'', [])"
  using literal_identifier_shortcut [of "''ocid1.compartment.oc1..prod''" failing_cloud]
    literal_identifier_shortcut [of "''ocid1.tenancy.oc1..root''" failing_cloud]
  by (simp add: HasPrefix_def)

lemma match_compartment_found:
  "match_compartment items input = Inr ident
   \<Longrightarrow> \<exists>c \<in> set items. Compartment_Name c = Some input \<and> Compartment_Id c = Some ident"
  by (induction items) (auto simp: deref_def split: option.splits if_splits)

text \<open>
  Claim C10. Compartment resolution returns its input unchanged without a request exactly
  when the input starts with \<^verbatim>\<open>ocid1.compartment.oc1.\<close> or \<^verbatim>\<open>ocid1.tenancy.oc1.\<close>. Any
  other input, identifiers of other kinds or realms included, is treated as a display name
  and looked up with one listing request for the tenancy: the result is the identifier of
  the first compartment of the response that has that name, it is \<open>NotFoundError\<close> when no
  compartment of the response has that name, and an identifier is returned only if it is
  that of a compartment of the response with that name.
\<close>

theorem compartment_literal_is_prefix_specific:
  "(resolveCompartmentID client input = (Inr input, [])
      \<longleftrightarrow> HasPrefix input ''ocid1.compartment.oc1.'' \<or> HasPrefix input ''ocid1.tenancy.oc1.'')
   \<and> (\<not> (HasPrefix input ''ocid1.compartment.oc1.'' \<or> HasPrefix input ''ocid1.tenancy.oc1.'')
       \<and> TenancyOCID client = Inr tenancyOCID \<and> NewIdentityClient client = Inr u
       \<longrightarrow> snd (resolveCompartmentID client input) = [ListCompartmentsCall (scope_request tenancyOCID)])
   \<and> (\<not> (HasPrefix input ''ocid1.compartment.oc1.'' \<or> HasPrefix input ''ocid1.tenancy.oc1.'')
       \<and> TenancyOCID client = Inr tenancyOCID \<and> NewIdentityClient client = Inr u
       \<and> ListCompartments client (scope_request tenancyOCID) = Inr response
       \<and> (\<forall>c \<in> set (LCResp_Items response). \<exists>name. Compartment_Name c = Some name \<and> name \<noteq> input)
       \<longrightarrow> fst (resolveCompartmentID client input) = Inl NotFoundError)
   \<and> (\<not> (HasPrefix input ''ocid1.compartment.oc1.'' \<or> HasPrefix input ''ocid1.tenancy.oc1.'')
       \<and> TenancyOCID client = Inr tenancyOCID \<and> NewIdentityClient client = Inr u
       \<and> ListCompartments client (scope_request tenancyOCID) = Inr listing
       \<and> (\<forall>c \<in> set (LCResp_Items listing). Compartment_Name c \<noteq> None)
       \<and> filter (\<lambda>c. Compartment_Name c = Some input) (LCResp_Items listing) = found # others
       \<and> Compartment_Id found = Some ident
       \<longrightarrow> resolveCompartmentID client input
             = (Inr ident, [ListCompartmentsCall (scope_request tenancyOCID)]))
   \<and> (\<not> (HasPrefix input ''ocid1.compartment.oc1.'' \<or> HasPrefix input ''ocid1.tenancy.oc1.'')
       \<and> fst (resolveCompartmentID client input) = Inr result
       \<longrightarrow> (\<exists>tenancy answer.
              TenancyOCID client = Inr tenancy
            \<and> ListCompartments client (scope_request tenancy) = Inr answer
            \<and> snd (resolveCompartmentID client input) = [ListCompartmentsCall (scope_request tenancy)]
            \<and> (\<exists>c \<in> set (LCResp_Items answer).
                  Compartment_Name c = Some input \<and> Compartment_Id c = Some result)))"
proof (intro conjI impI)
  show "resolveCompartmentID client input = (Inr input, [])
      \<longleftrightarrow> HasPrefix input ''ocid1.compartment.oc1.'' \<or> HasPrefix input ''ocid1.tenancy.oc1.''"
    by (auto simp: resolveCompartmentID_def Let_def split: sum.splits)
next
  assume "\<not> (HasPrefix input ''ocid1.compartment.oc1.'' \<or> HasPrefix input ''ocid1.tenancy.oc1.'')
       \<and> TenancyOCID client = Inr tenancyOCID \<and> NewIdentityClient client = Inr u"
  then show "snd (resolveCompartmentID client input) = [ListCompartmentsCall (scope_request tenancyOCID)]"
    by (auto simp: resolveCompartmentID_def scope_request_def Let_def split: sum.splits)
next
  assume "\<not> (HasPrefix input ''ocid1.compartment.oc1.'' \<or> HasPrefix input ''ocid1.tenancy.oc1.'')
       \<and> TenancyOCID client = Inr tenancyOCID \<and> NewIdentityClient client = Inr u
       \<and> ListCompartments client (scope_request tenancyOCID) = Inr response
       \<and> (\<forall>c \<in> set (LCResp_Items response). \<exists>name. Compartment_Name c = Some name \<and> name \<noteq> input)"
  then show "fst (resolveCompartmentID client input) = Inl NotFoundError"
    by (auto simp: resolveCompartmentID_def scope_request_def Let_def match_compartment_none)
next
  assume a: "\<not> (HasPrefix input ''ocid1.compartment.oc1.'' \<or> HasPrefix input ''ocid1.tenancy.oc1.'')
       \<and> TenancyOCID client = Inr tenancyOCID \<and> NewIdentityClient client = Inr u
       \<and> ListCompartments client (scope_request tenancyOCID) = Inr listing
       \<and> (\<forall>c \<in> set (LCResp_Items listing). Compartment_Name c \<noteq> None)
       \<and> filter (\<lambda>c. Compartment_Name c = Some input) (LCResp_Items listing) = found # others
       \<and> Compartment_Id found = Some ident"
  then have "match_compartment (LCResp_Items listing) input = Inr ident"
    using match_compartment_first [of "LCResp_Items listing" input found others]
    by (simp add: deref_def)
  with a show "resolveCompartmentID client input
             = (Inr ident, [ListCompartmentsCall (scope_request tenancyOCID)])"
    by (simp add: resolveCompartmentID_def scope_request_def)
next
  assume a: "\<not> (HasPrefix input ''ocid1.compartment.oc1.'' \<or> HasPrefix input ''ocid1.tenancy.oc1.'')
       \<and> fst (resolveCompartmentID client input) = Inr result"
  then obtain tenancy where t: "TenancyOCID client = Inr tenancy"
    by (cases "TenancyOCID client") (auto simp: resolveCompartmentID_def)
  from a t obtain v where n: "NewIdentityClient client = Inr v"
    by (cases "NewIdentityClient client") (auto simp: resolveCompartmentID_def)
  from a t n obtain answer where l: "ListCompartments client (scope_request tenancy) = Inr answer"
    by (cases "ListCompartments client (scope_request tenancy)")
       (auto simp: resolveCompartmentID_def scope_request_def Let_def)
  from a [THEN conjunct1] a [THEN conjunct2] t n l
  have m: "match_compartment (LCResp_Items answer) input = Inr result"
    and tr: "snd (resolveCompartmentID client input) = [ListCompartmentsCall (scope_request tenancy)]"
    by (simp_all add: resolveCompartmentID_def scope_request_def Let_def)
  from match_compartment_found [OF m] t l tr
  show "\<exists>tenancy answer.
              TenancyOCID client = Inr tenancy
            \<and> ListCompartments client (scope_request tenancy) = Inr answer
            \<and> snd (resolveCompartmentID client input) = [ListCompartmentsCall (scope_request tenancy)]
            \<and> (\<exists>c \<in> set (LCResp_Items answer).
                  Compartment_Name c = Some input \<and> Compartment_Id c = Some result)"
    by blast
qed

theorem compartment_literal_is_prefix_specific_witness:
  "\<not> HasPrefix ''ocid1.compartment.oc2.xyz'' ''ocid1.compartment.oc1.''
   \<and> \<not> HasPrefix ''ocid1.compartment.oc2.xyz'' ''ocid1.tenancy.oc1.''
   \<and> resolveCompartmentID demo_cloud ''ocid1.compartment.oc2.xyz''
       = (Inl NotFoundError, [ListCompartmentsCall (scope_request demo_tenancy)])
   \<and> resolveCompartmentID realm_cloud ''ocid1.compartment.oc2.xyz''
       = (Inr ''ocid1.compartment.oc1..legacy'', [ListCompartmentsCall (scope_request demo_tenancy)])
   \<and> resolveCompartmentID demo_cloud ''prod''
       = (Inr ''ocid1.compartment.oc1..prod'', [ListCompartmentsCall (scope_request demo_tenancy)])"
proof -
  note missing_inst =
    compartment_literal_is_prefix_specific [where client = demo_cloud
      and input = "''ocid1.compartment.oc2.xyz''" and tenancyOCID = demo_tenancy and u = "()"
      and response = "\<lparr>LCResp_Items = map item_of [demo_prod, demo_dev1, demo_dev2],
                          LCResp_OpcNextPage = Some ''2''\<rparr>"]
  have missing: "resolveCompartmentID demo_cloud ''ocid1.compartment.oc2.xyz''
       = (Inl NotFoundError, [ListCompartmentsCall (scope_request demo_tenancy)])"
    using missing_inst [THEN conjunct2, THEN conjunct1]
      missing_inst [THEN conjunct2, THEN conjunct2, THEN conjunct1]
    by (simp add: demo_defs HasPrefix_def prod_eq_iff)
  have realm: "resolveCompartmentID realm_cloud ''ocid1.compartment.oc2.xyz''
       = (Inr ''ocid1.compartment.oc1..legacy'', [ListCompartmentsCall (scope_request demo_tenancy)])"
    using compartment_literal_is_prefix_specific [where client = realm_cloud
      and input = "''ocid1.compartment.oc2.xyz''" and tenancyOCID = demo_tenancy and u = "()"
      and listing = "\<lparr>LCResp_Items = [realm_compartment], LCResp_OpcNextPage = None\<rparr>"
      and found = realm_compartment and others = "[]"
      and ident = "''ocid1.compartment.oc1..legacy''",
      THEN conjunct2, THEN conjunct2, THEN conjunct2, THEN conjunct1]
    by (simp add: demo_defs realm_cloud_def realm_compartment_def HasPrefix_def)
  have named: "resolveCompartmentID demo_cloud ''prod''
       = (Inr ''ocid1.compartment.oc1..prod'', [ListCompartmentsCall (scope_request demo_tenancy)])"
    using compartment_literal_is_prefix_specific [where client = demo_cloud
      and input = "''prod''" and tenancyOCID = demo_tenancy and u = "()"
      and listing = "\<lparr>LCResp_Items = map item_of [demo_prod, demo_dev1, demo_dev2],
                          LCResp_OpcNextPage = Some ''2''\<rparr>"
      and found = "item_of demo_prod" and others = "[]"
      and ident = "''ocid1.compartment.oc1..prod''",
      THEN conjunct2, THEN conjunct2, THEN conjunct2, THEN conjunct1]
    by (simp add: demo_defs HasPrefix_def)
  from missing realm named show ?thesis
    by (simp add: HasPrefix_def)
qed

text \<open>
  Claim C2 on the test data. The full listing of the tenancy has four compartments on two
  pages, \<open>staging\<close> on the second, and \<open>db\<close> lies below \<open>prod\<close>. Compartment resolution sends
  one request, reads the first page of the tenancy only, and reports both names as not
  found.
\<close>

theorem compartment_beyond_first_page_not_found:
  "pages demo_cloud (scope_request demo_tenancy)
     (map item_of [demo_prod, demo_dev1, demo_dev2, demo_staging])
   \<and> Compartment_Name (item_of demo_staging) = Some ''staging''
   \<and> resolveCompartmentID demo_cloud ''staging''
       = (Inl NotFoundError, [ListCompartmentsCall (scope_request demo_tenancy)])
   \<and> pages demo_cloud (scope_request (cid demo_prod)) (map item_of [demo_db])
   \<and> Compartment_Name (item_of demo_db) = Some ''db''
   \<and> resolveCompartmentID demo_cloud ''db''
       = (Inl NotFoundError, [ListCompartmentsCall (scope_request demo_tenancy)])"
proof -
  have "pages demo_cloud (scope_request (cid demo_prod)) (map item_of [demo_db])"
    by (rule pages.last_page) (simp add: demo_defs)
  with demo_root_pages show ?thesis
    by (simp add: resolveCompartmentID_def HasPrefix_def demo_defs)
qed


section \<open>Properties of the launch command\<close>

lemma ssh_keys_loop_blank:
  "\<forall>key \<in> set rest. trim key = [] \<Longrightarrow> ssh_keys_loop trim keys i rest acc = acc"
  by (induction rest arbitrary: i) simp_all

lemma ssh_authorized_keys_blank:
  "\<forall>key \<in> set (Split publicKeys (CHR '','')). trim key = []
   \<Longrightarrow> ssh_authorized_keys trim publicKeys = []"
  by (simp add: ssh_authorized_keys_def ssh_keys_loop_blank)

lemma step_Inl: "step (Inl e, tr) k = (Inl e, tr)"
  by (simp add: step_def)

lemma step_Inr: "step (Inr v, tr) k = (fst (k v), tr @ snd (k v))"
  by (simp add: step_def split: prod.splits)

lemma step_fails: "(\<And>v. isl (fst (k v))) \<Longrightarrow> isl (fst (step m k))"
  by (cases m; cases "fst m") (auto simp: step_Inl step_Inr)

lemma step_no_launch:
  "\<not> sends_launch (snd m) \<Longrightarrow> (\<And>v. \<not> sends_launch (snd (k v))) \<Longrightarrow> \<not> sends_launch (snd (step m k))"
  by (cases m; cases "fst m") (auto simp: step_Inl step_Inr sends_launch_def)

lemma step_invalid:
  assumes "fst (step m k) = Inl InvalidInputError" and "fst m \<noteq> Inl InvalidInputError"
  shows "\<exists>v. fst m = Inr v \<and> fst (k v) = Inl InvalidInputError
             \<and> snd (step m k) = snd m @ snd (k v)"
  using assms by (cases m; cases "fst m") (auto simp: step_Inl step_Inr)

lemma match_compartment_not_invalid: "match_compartment items input \<noteq> Inl InvalidInputError"
  by (induction items) (auto simp: deref_def split: option.splits)

lemma config_facts:
  "snd (config r) = []" "fst (config r) \<noteq> Inl InvalidInputError"
  by (cases r; simp add: config_def)+

lemma resolveCompartmentID_facts:
  "\<not> sends_launch (snd (resolveCompartmentID client input))"
  "fst (resolveCompartmentID client input) \<noteq> Inl InvalidInputError"
  by (auto simp: resolveCompartmentID_def Let_def sends_launch_def match_compartment_not_invalid
           split: sum.splits)

lemma resolveImageNameToID_facts:
  "\<not> sends_launch (snd (resolveImageNameToID client imageName compartmentID tenancyOCID))"
  "fst (resolveImageNameToID client imageName compartmentID tenancyOCID) \<noteq> Inl InvalidInputError"
  "\<exists>request. ListImagesCall request
      \<in> set (snd (resolveImageNameToID client imageName compartmentID tenancyOCID))"
  by (auto simp: resolveImageNameToID_def Let_def sends_launch_def deref_def
           split: sum.splits option.splits)

lemma resolveShapeNameToID_facts:
  "\<not> sends_launch (snd (resolveShapeNameToID client shapeName compartmentID imageID))"
  "fst (resolveShapeNameToID client shapeName compartmentID imageID) \<noteq> Inl InvalidInputError"
  "\<exists>request. ListShapesCall request
      \<in> set (snd (resolveShapeNameToID client shapeName compartmentID imageID))"
  by (auto simp: resolveShapeNameToID_def Let_def sends_launch_def match_shape_eq
           split: sum.splits)

lemma resolveCompartmentID_by_name_sends:
  assumes "\<not> (HasPrefix input ''ocid1.compartment.oc1.'' \<or> HasPrefix input ''ocid1.tenancy.oc1.'')"
    and "fst (resolveCompartmentID client input) = Inr ident"
  shows "\<exists>request. ListCompartmentsCall request \<in> set (snd (resolveCompartmentID client input))"
proof -
  from assms obtain tenancy where t: "TenancyOCID client = Inr tenancy"
    by (cases "TenancyOCID client") (auto simp: resolveCompartmentID_def)
  from assms t obtain v where n: "NewIdentityClient client = Inr v"
    by (cases "NewIdentityClient client") (auto simp: resolveCompartmentID_def)
  from assms(1) t n have
    "snd (resolveCompartmentID client input) = [ListCompartmentsCall (scope_request tenancy)]"
    by (auto simp: resolveCompartmentID_def scope_request_def Let_def split: sum.splits)
  then show ?thesis by simp
qed

text \<open>
  Claim C6 fails as stated: the keys are checked in step 8, after the compartment, the
  image and the shape have been looked up. With a blank \<^verbatim>\<open>--public-keys\<close> the command has
  sent four listing requests when it fails.
\<close>

theorem blank_keys_fail_after_lookups:
  "createCmd demo_cloud TrimSpace ''20260101-0000'' (demo_flags\<lparr>publicKeysFlag := '' , ''\<rparr>)
   = (Inl InvalidInputError,
      [ListCompartmentsCall \<lparr>LCReq_CompartmentId = Some ''ocid1.tenancy.oc1..root'',
                             LCReq_Page = None\<rparr>,
       ListImagesCall \<lparr>LIReq_CompartmentId = Some ''ocid1.compartment.oc1..prod'',
                       LIReq_DisplayName = Some ''ubuntu''\<rparr>,
       ListImagesCall \<lparr>LIReq_CompartmentId = Some ''ocid1.tenancy.oc1..root'',
                       LIReq_DisplayName = Some ''ubuntu''\<rparr>,
       ListShapesCall \<lparr>LSReq_CompartmentId = Some ''ocid1.compartment.oc1..prod'',
                       LSReq_ImageId = Some ''ocid1.image.oc1..ubuntu1''\<rparr>])"
  by (simp add: createCmd_def step_def config_def resolveCompartmentID_def
      resolveImageNameToID_def resolveShapeNameToID_def HasPrefix_def deref_def
      ssh_authorized_keys_def Split_def TrimSpace_def asciiSpace_def space2_def space3_def demo_defs)

text \<open>
  Claim C6, amended. If every comma-separated entry of \<^verbatim>\<open>--public-keys\<close> is empty after
  trimming, the command fails and no launch request is sent. When it fails for the missing
  keys, the image listing and the shape listing have already been requested, and so has
  the compartment listing if \<^verbatim>\<open>--compartment-id\<close> gave a name (a value that is not empty
  and has neither identifier prefix).
\<close>

theorem blank_keys_never_launch:
  assumes "\<forall>key \<in> set (Split (publicKeysFlag flags) (CHR '','')). trim key = []"
  shows "isl (fst (createCmd client trim now flags))
       \<and> \<not> sends_launch (snd (createCmd client trim now flags))
       \<and> (fst (createCmd client trim now flags) = Inl InvalidInputError
            \<longrightarrow> (\<exists>request. ListImagesCall request \<in> set (snd (createCmd client trim now flags)))
              \<and> (\<exists>request. ListShapesCall request \<in> set (snd (createCmd client trim now flags))))
       \<and> (fst (createCmd client trim now flags) = Inl InvalidInputError
            \<and> compartmentInput flags \<noteq> []
            \<and> \<not> (HasPrefix (compartmentInput flags) ''ocid1.compartment.oc1.''
                   \<or> HasPrefix (compartmentInput flags) ''ocid1.tenancy.oc1.'')
            \<longrightarrow> (\<exists>request. ListCompartmentsCall request
                   \<in> set (snd (createCmd client trim now flags))))"
proof -
  have blank: "ssh_authorized_keys trim (publicKeysFlag flags) = []"
    using assms by (rule ssh_authorized_keys_blank)
  let ?A = "config (NewComputeClient client) :: unit outcome"
  let ?B = "if compartmentInput flags \<noteq> []
            then resolveCompartmentID client (compartmentInput flags)
            else config (TenancyOCID client)"
  let ?C = "config (TenancyOCID client)"
  let ?D = "\<lambda>compartmentID tenancyOCID.
              resolveImageNameToID client (imageNameFlag flags) compartmentID tenancyOCID"
  let ?E = "\<lambda>compartmentID imageID.
              resolveShapeNameToID client (shapeNameFlag flags) compartmentID imageID"
  let ?F = "(Inl InvalidInputError, []) :: LaunchInstanceResponse outcome"
  have unfold: "createCmd client trim now flags =
      step ?A (\<lambda>_. step ?B (\<lambda>compartmentID. step ?C (\<lambda>tenancyOCID.
        step (?D compartmentID tenancyOCID) (\<lambda>imageID.
          step (?E compartmentID imageID) (\<lambda>_. ?F)))))"
    by (simp add: createCmd_def blank Let_def)
  have no_events: "\<not> sends_launch []"
    by (simp add: sends_launch_def)
  have B: "\<not> sends_launch (snd ?B)" "fst ?B \<noteq> Inl InvalidInputError"
    by (simp_all add: resolveCompartmentID_facts config_facts no_events)
  have fails: "isl (fst (createCmd client trim now flags))"
    unfolding unfold by (intro step_fails) simp
  have quiet: "\<not> sends_launch (snd (createCmd client trim now flags))"
    unfolding unfold
    by (intro step_no_launch B resolveImageNameToID_facts resolveShapeNameToID_facts)
       (simp_all add: config_facts no_events)
  have late: "(\<exists>request. ListImagesCall request \<in> set (snd (createCmd client trim now flags)))
            \<and> (\<exists>request. ListShapesCall request \<in> set (snd (createCmd client trim now flags)))
            \<and> (compartmentInput flags \<noteq> []
                 \<and> \<not> (HasPrefix (compartmentInput flags) ''ocid1.compartment.oc1.''
                        \<or> HasPrefix (compartmentInput flags) ''ocid1.tenancy.oc1.'')
               \<longrightarrow> (\<exists>request. ListCompartmentsCall request
                      \<in> set (snd (createCmd client trim now flags))))"
    if inv: "fst (createCmd client trim now flags) = Inl InvalidInputError"
  proof -
    from step_invalid [OF inv [unfolded unfold] config_facts(2)] obtain v1 where
      s1: "fst (step ?B (\<lambda>compartmentID. step ?C (\<lambda>tenancyOCID.
             step (?D compartmentID tenancyOCID) (\<lambda>imageID.
               step (?E compartmentID imageID) (\<lambda>_. ?F))))) = Inl InvalidInputError"
      and t1: "snd (createCmd client trim now flags) =
             snd ?A @ snd (step ?B (\<lambda>compartmentID. step ?C (\<lambda>tenancyOCID.
             step (?D compartmentID tenancyOCID) (\<lambda>imageID.
               step (?E compartmentID imageID) (\<lambda>_. ?F)))))"
      unfolding unfold by blast
    from step_invalid [OF s1 B(2)] obtain compartmentID where
      b: "fst ?B = Inr compartmentID"
      and s2: "fst (step ?C (\<lambda>tenancyOCID.
             step (?D compartmentID tenancyOCID) (\<lambda>imageID.
               step (?E compartmentID imageID) (\<lambda>_. ?F)))) = Inl InvalidInputError"
      and t2: "snd (step ?B (\<lambda>compartmentID. step ?C (\<lambda>tenancyOCID.
             step (?D compartmentID tenancyOCID) (\<lambda>imageID.
               step (?E compartmentID imageID) (\<lambda>_. ?F))))) =
             snd ?B @ snd (step ?C (\<lambda>tenancyOCID.
             step (?D compartmentID tenancyOCID) (\<lambda>imageID.
               step (?E compartmentID imageID) (\<lambda>_. ?F))))"
      by blast
    from step_invalid [OF s2 config_facts(2)] obtain tenancyOCID where
      s3: "fst (step (?D compartmentID tenancyOCID) (\<lambda>imageID.
               step (?E compartmentID imageID) (\<lambda>_. ?F))) = Inl InvalidInputError"
      and t3: "snd (step ?C (\<lambda>tenancyOCID.
             step (?D compartmentID tenancyOCID) (\<lambda>imageID.
               step (?E compartmentID imageID) (\<lambda>_. ?F)))) =
             snd ?C @ snd (step (?D compartmentID tenancyOCID) (\<lambda>imageID.
               step (?E compartmentID imageID) (\<lambda>_. ?F)))"
      by blast
    from step_invalid [OF s3 resolveImageNameToID_facts(2)] obtain imageID where
      s4: "fst (step (?E compartmentID imageID) (\<lambda>_. ?F)) = Inl InvalidInputError"
      and t4: "snd (step (?D compartmentID tenancyOCID) (\<lambda>imageID.
               step (?E compartmentID imageID) (\<lambda>_. ?F))) =
             snd (?D compartmentID tenancyOCID) @ snd (step (?E compartmentID imageID) (\<lambda>_. ?F))"
      by blast
    from step_invalid [OF s4 resolveShapeNameToID_facts(2)] have
      t5: "snd (step (?E compartmentID imageID) (\<lambda>_. ?F)) = snd (?E compartmentID imageID) @ []"
      by auto
    have tr: "snd (createCmd client trim now flags) =
        snd ?A @ snd ?B @ snd ?C @ snd (?D compartmentID tenancyOCID) @ snd (?E compartmentID imageID)"
      by (simp only: t1 t2 t3 t4 t5 append_Nil2)
    have lookups: "(\<exists>request. ListImagesCall request \<in> set (snd (createCmd client trim now flags)))
            \<and> (\<exists>request. ListShapesCall request \<in> set (snd (createCmd client trim now flags)))"
      using resolveImageNameToID_facts(3) [of client "imageNameFlag flags" compartmentID tenancyOCID]
        resolveShapeNameToID_facts(3) [of client "shapeNameFlag flags" compartmentID imageID]
      unfolding tr by auto
    have by_name: "\<exists>request. ListCompartmentsCall request
                      \<in> set (snd (createCmd client trim now flags))"
      if given: "compartmentInput flags \<noteq> []"
        and name: "\<not> (HasPrefix (compartmentInput flags) ''ocid1.compartment.oc1.''
                        \<or> HasPrefix (compartmentInput flags) ''ocid1.tenancy.oc1.'')"
    proof -
      from b given have "fst (resolveCompartmentID client (compartmentInput flags)) = Inr compartmentID"
        by simp
      from resolveCompartmentID_by_name_sends [OF name this] given
      have "\<exists>request. ListCompartmentsCall request \<in> set (snd ?B)"
        by simp
      then show ?thesis unfolding tr by auto
    qed
    from lookups by_name show ?thesis by blast
  qed
  from fails quiet late show ?thesis by blast
qed

theorem blank_keys_never_launch_witness:
  "map TrimSpace (Split '' , '' (CHR '','')) = [[], []]
   \<and> compartmentInput (demo_flags\<lparr>publicKeysFlag := '' , ''\<rparr>) = ''prod''
   \<and> isl (fst (createCmd demo_cloud TrimSpace ''20260101-0000''
                 (demo_flags\<lparr>publicKeysFlag := '' , ''\<rparr>)))
   \<and> \<not> sends_launch (snd (createCmd demo_cloud TrimSpace ''20260101-0000''
                 (demo_flags\<lparr>publicKeysFlag := '' , ''\<rparr>)))
   \<and> fst (createCmd demo_cloud TrimSpace ''20260101-0000''
            (demo_flags\<lparr>publicKeysFlag := '' , ''\<rparr>)) = Inl InvalidInputError
   \<and> (\<exists>request. ListImagesCall request
         \<in> set (snd (createCmd demo_cloud TrimSpace ''20260101-0000''
                        (demo_flags\<lparr>publicKeysFlag := '' , ''\<rparr>))))
   \<and> (\<exists>request. ListShapesCall request
         \<in> set (snd (createCmd demo_cloud TrimSpace ''20260101-0000''
                        (demo_flags\<lparr>publicKeysFlag := '' , ''\<rparr>))))
   \<and> (\<exists>request. ListCompartmentsCall request
         \<in> set (snd (createCmd demo_cloud TrimSpace ''20260101-0000''
                        (demo_flags\<lparr>publicKeysFlag := '' , ''\<rparr>))))"
proof -
  let ?flags = "demo_flags\<lparr>publicKeysFlag := '' , ''\<rparr>"
  have keys: "map TrimSpace (Split '' , '' (CHR '','')) = [[], []]"
    by (simp add: Split_def TrimSpace_def asciiSpace_def space2_def space3_def)
  have blank: "\<forall>key \<in> set (Split (publicKeysFlag ?flags) (CHR '','')). TrimSpace key = []"
    by (simp add: Split_def TrimSpace_def asciiSpace_def space2_def space3_def)
  have input: "compartmentInput ?flags = ''prod''"
    by (simp add: demo_flags_def)
  have name: "compartmentInput ?flags \<noteq> []
      \<and> \<not> (HasPrefix (compartmentInput ?flags) ''ocid1.compartment.oc1.''
             \<or> HasPrefix (compartmentInput ?flags) ''ocid1.tenancy.oc1.'')"
    by (simp add: demo_flags_def HasPrefix_def)
  have invalid: "fst (createCmd demo_cloud TrimSpace ''20260101-0000'' ?flags) = Inl InvalidInputError"
    by (simp add: createCmd_def step_def config_def resolveCompartmentID_def
        resolveImageNameToID_def resolveShapeNameToID_def HasPrefix_def deref_def
        ssh_authorized_keys_def Split_def TrimSpace_def asciiSpace_def space2_def space3_def
        demo_defs)
  note all = blank_keys_never_launch [OF blank, of demo_cloud "''20260101-0000''"]
  from all [THEN conjunct1] all [THEN conjunct2, THEN conjunct1]
    all [THEN conjunct2, THEN conjunct2, THEN conjunct1, rule_format, OF invalid]
    all [THEN conjunct2, THEN conjunct2, THEN conjunct2, rule_format, OF conjI [OF invalid name]]
    keys input invalid
  show ?thesis by blast
qed

text \<open>
  Claim C9 on a value that ends with a comma, or with a blank entry: the line feed is
  appended after every non-blank entry that is not at the last index of the split list, so
  the packed value ends with a line feed.
\<close>

theorem trailing_comma_leaves_trailing_newline:
  "ssh_authorized_keys TrimSpace ''ssh-rsa AAAA,'' = ''ssh-rsa AAAA'' @ [CHR 0x0A]
   \<and> ssh_authorized_keys TrimSpace ''ssh-rsa AAAA, ssh-ed25519 BBBB , ''
       = ''ssh-rsa AAAA'' @ [CHR 0x0A] @ ''ssh-ed25519 BBBB'' @ [CHR 0x0A]"
  by (simp add: ssh_authorized_keys_def Split_def TrimSpace_def asciiSpace_def space2_def space3_def)

text \<open>The whole run of the command on the first of these values.\<close>

lemma trailing_comma_launch_request:
  "createCmd demo_cloud TrimSpace ''20260101-0000'' (demo_flags\<lparr>publicKeysFlag := ''ssh-rsa AAAA,''\<rparr>)
     = (Inr \<lparr>Instance_Id = Some ''ocid1.instance.oc1..new'',
              Instance_LifecycleState = ''PROVISIONING''\<rparr>,
        [ListCompartmentsCall \<lparr>LCReq_CompartmentId = Some ''ocid1.tenancy.oc1..root'',
                               LCReq_Page = None\<rparr>,
         ListImagesCall \<lparr>LIReq_CompartmentId = Some ''ocid1.compartment.oc1..prod'',
                         LIReq_DisplayName = Some ''ubuntu''\<rparr>,
         ListImagesCall \<lparr>LIReq_CompartmentId = Some ''ocid1.tenancy.oc1..root'',
                         LIReq_DisplayName = Some ''ubuntu''\<rparr>,
         ListShapesCall \<lparr>LSReq_CompartmentId = Some ''ocid1.compartment.oc1..prod'',
                         LSReq_ImageId = Some ''ocid1.image.oc1..ubuntu1''\<rparr>,
         LaunchInstanceCall
           \<lparr>Launch_AvailabilityDomain = ''AD-1'',
            Launch_CompartmentId = ''ocid1.compartment.oc1..prod'',
            Launch_DisplayName = ''web'',
            Launch_Shape = ''VM.Standard.E4.Flex'',
            Launch_SubnetId = ''ocid1.subnet.oc1..net'',
            Launch_ImageId = ''ocid1.image.oc1..ubuntu1'',
            Launch_Metadata = [(''ssh_authorized_keys'', ''ssh-rsa AAAA'' @ [CHR 0x0A])],
            Launch_ShapeConfig = None\<rparr>])"
  by (simp add: createCmd_def step_def config_def launch_def resolveCompartmentID_def
      resolveImageNameToID_def resolveShapeNameToID_def HasPrefix_def deref_def
      ssh_authorized_keys_def Split_def TrimSpace_def asciiSpace_def space2_def space3_def demo_defs)

lemma ssh_keys_loop_packed:
  "i + int (length rest) = int (length keys)
   \<Longrightarrow> ssh_keys_loop trim keys i rest acc = acc @ packed trim rest"
proof (induction rest arbitrary: i acc)
  case Nil
  show ?case by simp
next
  case (Cons key rest)
  have step: "(i + 1) + int (length rest) = int (length keys)"
    using Cons.prems by simp
  have pos: "i < int (length keys) - 1 \<longleftrightarrow> rest \<noteq> []"
    using Cons.prems by (cases rest) auto
  show ?case
    by (simp add: Cons.IH [OF step] pos Let_def)
qed

lemma join_lines_Cons:
  "join_lines (key # rest) = key @ (if rest = [] then [] else [CHR 0x0A] @ join_lines rest)"
  by (cases rest) simp_all

lemma packed_blank: "\<forall>key \<in> set rest. trim key = [] \<Longrightarrow> packed trim rest = []"
  by (induction rest) simp_all

lemma packed_value:
  "packed trim keys =
     join_lines (filter (\<lambda>key. key \<noteq> []) (map trim keys))
     @ (if keys \<noteq> [] \<and> trim (last keys) = [] \<and> (\<exists>key \<in> set keys. trim key \<noteq> [])
        then [CHR 0x0A] else [])"
proof (induction keys)
  case Nil
  show ?case by simp
next
  case (Cons key rest)
  show ?case
  proof (cases "trim key = []")
    case True
    with Cons show ?thesis by (cases "rest = []") auto
  next
    case False
    note nonblank = False
    show ?thesis
    proof (cases "\<forall>k \<in> set rest. trim k = []")
      case True
      then have f: "filter (\<lambda>key. key \<noteq> []) (map trim rest) = []"
        by (induction rest) auto
      from True have "rest \<noteq> [] \<Longrightarrow> trim (last rest) = []" by simp
      with True nonblank f show ?thesis
        by (auto simp: packed_blank)
    next
      case False
      then have f: "filter (\<lambda>key. key \<noteq> []) (map trim rest) \<noteq> []"
        by (induction rest) auto
      from False have "rest \<noteq> []" by auto
      with False nonblank f Cons show ?thesis
        by (auto simp: join_lines_Cons)
    qed
  qed
qed

lemma Split_nonempty: "split_from acc sep s \<noteq> []"
  by (induction s arbitrary: acc) auto

text \<open>
  What the loop computes in general: the trimmed non-blank entries joined by line feeds,
  followed by one more line feed when the last entry is blank and some entry is not.
\<close>

lemma ssh_authorized_keys_value:
  "ssh_authorized_keys trim publicKeys =
     join_lines (filter (\<lambda>key. key \<noteq> []) (map trim (Split publicKeys (CHR '',''))))
     @ (if trim (last (Split publicKeys (CHR '','')))  = []
           \<and> (\<exists>key \<in> set (Split publicKeys (CHR '','')). trim key \<noteq> [])
        then [CHR 0x0A] else [])"
  using packed_value [of trim "Split publicKeys (CHR '','')"]
  by (simp add: ssh_authorized_keys_def ssh_keys_loop_packed Split_def Split_nonempty)

end
